theory Spec2Isabelle
  imports Complex_Main "HOL-Library.Word"
begin

unbundle bit_operations_syntax

section \<open>Solidity values\<close>

text \<open>
  The two contracts of the repository, \<^verbatim>\<open>GandalfBreakerNFT.sol\<close> and
  \<^verbatim>\<open>HintPayment.sol\<close>, compute on 160-bit addresses, 256-bit unsigned integers,
  32-byte words and byte strings. Arithmetic of Solidity 0.8 is checked: an overflow
  reverts the call with a panic, which the model writes out where the source adds.
\<close>

type_synonym address = "160 word"
type_synonym uint256 = "256 word"
type_synonym bytes32 = "256 word"
type_synonym uint8 = "8 word"
type_synonym bytes = "8 word list"

text \<open>
  Every revert of the two contracts is a value. The first eleven are the custom errors the
  sources declare; the others are the reverts of the inherited library code
  (\<^verbatim>\<open>Ownable\<close>, \<^verbatim>\<open>ReentrancyGuard\<close>, \<^verbatim>\<open>ECDSA.recover\<close>, \<^verbatim>\<open>ERC721._safeMint\<close>,
  \<^verbatim>\<open>SafeERC20\<close>) and the panics of the compiler (arithmetic overflow, array index out of bounds).
\<close>

datatype error =
    InvalidLevel
  | AlreadyCompleted
  | InvalidSignature
  | SignatureExpired
  | NonceAlreadyUsed
  | ZeroAddress
  | InvalidHintIndex
  | AlreadyPurchased
  | InvalidAmount
  | SignatureAlreadyUsed
  | InsufficientBalance
  | OwnableUnauthorizedAccount
  | OwnableInvalidOwner
  | ReentrancyGuardReentrantCall
  | ECDSAInvalidSignature
  | ERC721Reverted
  | ERC20TransferReverted
  | Panic

text \<open>What a call sees of its transaction: \<^verbatim>\<open>msg.sender\<close>, \<^verbatim>\<open>block.timestamp\<close>, \<^verbatim>\<open>address(this)\<close>.\<close>

record ctx =
  msg_sender :: address
  block_timestamp :: uint256
  this :: address

text \<open>
  The primitives the contracts call and do not define: the hash \<^verbatim>\<open>keccak256\<close>, the
  precompile \<^verbatim>\<open>ecrecover\<close> (it returns the zero address when it fails),
  OpenZeppelin's \<^verbatim>\<open>ECDSA.recover\<close> (it reverts on a malformed signature: \<open>None\<close>),
  the inherited \<^verbatim>\<open>ERC721._safeMint\<close> acting on the token ledger \<open>'e\<close> (it reverts,
  among others, when the receiver is a contract that does not accept ERC721 tokens), and
  the external payment token with ledger \<open>'t\<close>, called through \<^verbatim>\<open>SafeERC20\<close>
  (\<open>None\<close> when the transfer reverts). They are parameters of the model: every theorem
  holds for all of them.
\<close>

record ('e, 't) externals =
  keccak256 :: "bytes \<Rightarrow> bytes32"
  ecrecover :: "bytes32 \<Rightarrow> uint8 \<Rightarrow> bytes32 \<Rightarrow> bytes32 \<Rightarrow> address"
  ECDSA_recover :: "bytes32 \<Rightarrow> bytes \<Rightarrow> address option"
  safeMint :: "address \<Rightarrow> uint256 \<Rightarrow> 'e \<Rightarrow> 'e option"
  safeTransferFrom :: "address \<Rightarrow> address \<Rightarrow> address \<Rightarrow> uint256 \<Rightarrow> 't \<Rightarrow> 't option"
  safeTransfer :: "address \<Rightarrow> address \<Rightarrow> uint256 \<Rightarrow> 't \<Rightarrow> 't option"
  balanceOf :: "'t \<Rightarrow> address \<Rightarrow> uint256"

subsection \<open>Packed encoding\<close>

text \<open>
  \<^verbatim>\<open>abi.encodePacked\<close> writes an address as its 20 bytes and a \<^verbatim>\<open>uint256\<close> or
  \<^verbatim>\<open>bytes32\<close> as its 32 bytes, most significant byte first, with no padding and no
  length prefix between the fields.
\<close>

fun be_bytes :: "nat \<Rightarrow> nat \<Rightarrow> bytes" where
  "be_bytes 0 x = []"
| "be_bytes (Suc k) x = be_bytes k (x div 256) @ [of_nat (x mod 256)]"

definition address_bytes :: "address \<Rightarrow> bytes" where
  "address_bytes a = be_bytes 20 (unat a)"

definition uint256_bytes :: "uint256 \<Rightarrow> bytes" where
  "uint256_bytes w = be_bytes 32 (unat w)"

text \<open>The prefix \<^verbatim>\<open>"\x19Ethereum Signed Message:\n32"\<close> of a signed 32-byte message.\<close>

definition eth_prefix :: bytes where
  "eth_prefix = 0x19 # map of_char ''Ethereum Signed Message:'' @ [0x0A] @ map of_char ''32''"

text \<open>
  \<^verbatim>\<open>_toEthSignedMessageHash\<close> of HintPayment; \<^verbatim>\<open>MessageHashUtils.toEthSignedMessageHash\<close>,
  which the NFT contract calls, computes the same value.
\<close>

definition toEthSignedMessageHash :: "('e, 't) externals \<Rightarrow> bytes32 \<Rightarrow> bytes32" where
  "toEthSignedMessageHash X hash = keccak256 X (eth_prefix @ uint256_bytes hash)"

section \<open>The achievement token contract (GandalfBreakerNFT.sol)\<close>

definition MAX_LEVEL :: uint256 where
  "MAX_LEVEL = 7"

datatype nft_event =
    LevelCompleted address uint256 uint256
  | SignerUpdated address address
  | BaseURIUpdated string
  | OwnershipTransferred address address

text \<open>
  The storage of the contract. \<open>nft_owner\<close> is the owner of \<^verbatim>\<open>Ownable\<close>, \<open>erc721\<close> the
  storage of the inherited \<^verbatim>\<open>ERC721Enumerable\<close>, which only inherited code reads and
  writes, and \<open>nft_log\<close> the events emitted so far.
\<close>

record 'e nft =
  signer :: address
  tokenIdCounter :: uint256
  baseURI :: string
  completedLevels :: "address \<Rightarrow> uint256 \<Rightarrow> bool"
  tokenLevel :: "uint256 \<Rightarrow> uint256"
  tokenCompletedAt :: "uint256 \<Rightarrow> uint256"
  usedNonces :: "bytes32 \<Rightarrow> bool"
  nft_owner :: address
  erc721 :: 'e
  nft_log :: "nft_event list"

text \<open>The constructor; \<open>e0\<close> is the empty ledger that the \<^verbatim>\<open>ERC721\<close> constructor leaves.\<close>

definition nft_constructor :: "ctx \<Rightarrow> 'e \<Rightarrow> address \<Rightarrow> string \<Rightarrow> error + 'e nft" where
  "nft_constructor c e0 signer' baseURI' =
     (if msg_sender c = 0 then Inl OwnableInvalidOwner
      else if signer' = 0 then Inl ZeroAddress
      else Inr \<lparr>signer = signer', tokenIdCounter = 0, baseURI = baseURI',
                completedLevels = (\<lambda>_ _. False), tokenLevel = (\<lambda>_. 0),
                tokenCompletedAt = (\<lambda>_. 0), usedNonces = (\<lambda>_. False),
                nft_owner = msg_sender c, erc721 = e0,
                nft_log = [OwnershipTransferred 0 (msg_sender c)]\<rparr>)"

text \<open>
  The bytes that are hashed: \<^verbatim>\<open>abi.encodePacked(msg.sender, level, nonce, deadline, address(this))\<close>.
\<close>

definition mint_message :: "address \<Rightarrow> uint256 \<Rightarrow> bytes32 \<Rightarrow> uint256 \<Rightarrow> address \<Rightarrow> bytes" where
  "mint_message user level nonce deadline contract =
     address_bytes user @ uint256_bytes level @ uint256_bytes nonce @ uint256_bytes deadline
       @ address_bytes contract"

definition mint_messageHash ::
  "('e, 't) externals \<Rightarrow> ctx \<Rightarrow> uint256 \<Rightarrow> bytes32 \<Rightarrow> uint256 \<Rightarrow> bytes32" where
  "mint_messageHash X c level nonce deadline =
     keccak256 X (mint_message (msg_sender c) level nonce deadline (this c))"

text \<open>
  \<^verbatim>\<open>mintWithSignature\<close>: the four checks in the order of the source, the signature
  check, then the effects. \<^verbatim>\<open>_tokenIdCounter++\<close> is a checked increment. The receiver
  hook that \<^verbatim>\<open>_safeMint\<close> calls is part of the parameter \<open>safeMint\<close>, as a test that
  accepts or rejects: calls that re-enter the contract from the hook are not modelled.
\<close>

definition mintWithSignature ::
  "('e, 't) externals \<Rightarrow> ctx \<Rightarrow> uint256 \<Rightarrow> bytes \<Rightarrow> bytes32 \<Rightarrow> uint256 \<Rightarrow> 'e nft \<Rightarrow> error + 'e nft" where
  "mintWithSignature X c level signature nonce deadline s =
     (if level = 0 \<or> level > MAX_LEVEL then Inl InvalidLevel
      else if completedLevels s (msg_sender c) level then Inl AlreadyCompleted
      else if block_timestamp c > deadline then Inl SignatureExpired
      else if usedNonces s nonce then Inl NonceAlreadyUsed
      else
        let messageHash = mint_messageHash X c level nonce deadline;
            ethSignedHash = toEthSignedMessageHash X messageHash
        in case ECDSA_recover X ethSignedHash signature of
             None \<Rightarrow> Inl ECDSAInvalidSignature
           | Some recoveredSigner \<Rightarrow>
               if recoveredSigner \<noteq> signer s then Inl InvalidSignature
               else if tokenIdCounter s = - 1 then Inl Panic
               else
                 let tokenId = tokenIdCounter s
                 in (case safeMint X (msg_sender c) tokenId (erc721 s) of
                      None \<Rightarrow> Inl ERC721Reverted
                    | Some e' \<Rightarrow>
                        Inr (s\<lparr>usedNonces := fun_upd (usedNonces s) nonce True,
                               completedLevels := fun_upd (completedLevels s) (msg_sender c)
                                 (fun_upd (completedLevels s (msg_sender c)) level True),
                               tokenIdCounter := tokenId + 1,
                               tokenLevel := fun_upd (tokenLevel s) tokenId level,
                               tokenCompletedAt := fun_upd (tokenCompletedAt s) tokenId (block_timestamp c),
                               erc721 := e',
                               nft_log := nft_log s @ [LevelCompleted (msg_sender c) level tokenId]\<rparr>)))"

definition hasCompletedLevel :: "'e nft \<Rightarrow> address \<Rightarrow> uint256 \<Rightarrow> bool" where
  "hasCompletedLevel s user level = completedLevels s user level"

definition getTier :: "uint256 \<Rightarrow> string" where
  "getTier level =
     (if level \<le> 2 then ''Bronze''
      else if level \<le> 4 then ''Silver''
      else if level \<le> 6 then ''Gold''
      else ''Platinum'')"

definition setSigner :: "ctx \<Rightarrow> address \<Rightarrow> 'e nft \<Rightarrow> error + 'e nft" where
  "setSigner c newSigner s =
     (if nft_owner s \<noteq> msg_sender c then Inl OwnableUnauthorizedAccount
      else if newSigner = 0 then Inl ZeroAddress
      else Inr (s\<lparr>signer := newSigner,
                  nft_log := nft_log s @ [SignerUpdated (signer s) newSigner]\<rparr>))"

definition setBaseURI :: "ctx \<Rightarrow> string \<Rightarrow> 'e nft \<Rightarrow> error + 'e nft" where
  "setBaseURI c newBaseURI s =
     (if nft_owner s \<noteq> msg_sender c then Inl OwnableUnauthorizedAccount
      else Inr (s\<lparr>baseURI := newBaseURI, nft_log := nft_log s @ [BaseURIUpdated newBaseURI]\<rparr>))"

text \<open>The two public functions inherited from \<^verbatim>\<open>Ownable\<close>.\<close>

definition nft_transferOwnership :: "ctx \<Rightarrow> address \<Rightarrow> 'e nft \<Rightarrow> error + 'e nft" where
  "nft_transferOwnership c newOwner s =
     (if nft_owner s \<noteq> msg_sender c then Inl OwnableUnauthorizedAccount
      else if newOwner = 0 then Inl OwnableInvalidOwner
      else Inr (s\<lparr>nft_owner := newOwner,
                  nft_log := nft_log s @ [OwnershipTransferred (nft_owner s) newOwner]\<rparr>))"

definition nft_renounceOwnership :: "ctx \<Rightarrow> 'e nft \<Rightarrow> error + 'e nft" where
  "nft_renounceOwnership c s =
     (if nft_owner s \<noteq> msg_sender c then Inl OwnableUnauthorizedAccount
      else Inr (s\<lparr>nft_owner := 0,
                  nft_log := nft_log s @ [OwnershipTransferred (nft_owner s) 0]\<rparr>))"

text \<open>
  A transaction sent to the contract. \<open>Inherited_ERC721 f\<close> stands for any of the public
  functions inherited from \<^verbatim>\<open>ERC721Enumerable\<close> (\<^verbatim>\<open>approve\<close>, \<^verbatim>\<open>transferFrom\<close>, ...):
  such a call reads and writes the token ledger only, and reverts when \<open>f\<close> is \<open>None\<close>.
\<close>

datatype 'e nft_call =
    MintWithSignature ctx uint256 bytes bytes32 uint256
  | SetSigner ctx address
  | SetBaseURI ctx string
  | TransferOwnership ctx address
  | RenounceOwnership ctx
  | Inherited_ERC721 "'e \<Rightarrow> 'e option"

fun nft_exec :: "('e, 't) externals \<Rightarrow> 'e nft_call \<Rightarrow> 'e nft \<Rightarrow> error + 'e nft" where
  "nft_exec X (MintWithSignature c level signature nonce deadline) s =
     mintWithSignature X c level signature nonce deadline s"
| "nft_exec X (SetSigner c newSigner) s = setSigner c newSigner s"
| "nft_exec X (SetBaseURI c newBaseURI) s = setBaseURI c newBaseURI s"
| "nft_exec X (TransferOwnership c newOwner) s = nft_transferOwnership c newOwner s"
| "nft_exec X (RenounceOwnership c) s = nft_renounceOwnership c s"
| "nft_exec X (Inherited_ERC721 f) s =
     (case f (erc721 s) of None \<Rightarrow> Inl ERC721Reverted | Some e' \<Rightarrow> Inr (s\<lparr>erc721 := e'\<rparr>))"

text \<open>A transaction that reverts leaves the storage as it was.\<close>

definition nft_step :: "('e, 't) externals \<Rightarrow> 'e nft_call \<Rightarrow> 'e nft \<Rightarrow> 'e nft" where
  "nft_step X call s = (case nft_exec X call s of Inl _ \<Rightarrow> s | Inr s' \<Rightarrow> s')"

definition nft_run :: "('e, 't) externals \<Rightarrow> 'e nft_call list \<Rightarrow> 'e nft \<Rightarrow> 'e nft" where
  "nft_run X calls s = fold (nft_step X) calls s"

text \<open>
  Counting along a run of transactions: \<open>accepted X P calls s\<close> is the number of calls of
  \<open>calls\<close> that satisfy \<open>P\<close> and do not revert, when \<open>calls\<close> are sent one after the
  other from the storage \<open>s\<close>.
\<close>

fun presents_nonce :: "bytes32 \<Rightarrow> 'e nft_call \<Rightarrow> bool" where
  "presents_nonce n (MintWithSignature c level signature nonce deadline) = (nonce = n)"
| "presents_nonce n _ = False"

fun mints_level_for :: "address \<Rightarrow> uint256 \<Rightarrow> 'e nft_call \<Rightarrow> bool" where
  "mints_level_for u l (MintWithSignature c level signature nonce deadline) =
     (msg_sender c = u \<and> level = l)"
| "mints_level_for u l _ = False"

fun accepted :: "('e, 't) externals \<Rightarrow> ('e nft_call \<Rightarrow> bool) \<Rightarrow> 'e nft_call list \<Rightarrow> 'e nft \<Rightarrow> nat" where
  "accepted X P [] s = 0"
| "accepted X P (call # calls) s =
     (if P call \<and> \<not> isl (nft_exec X call s) then 1 else 0) + accepted X P calls (nft_step X call s)"

section \<open>The hint payment contract (HintPayment.sol)\<close>

definition MAX_HINTS_PER_LEVEL :: uint256 where
  "MAX_HINTS_PER_LEVEL = 3"

type_synonym prices3 = "uint256 \<times> uint256 \<times> uint256"

datatype hp_event =
    HintPurchased address uint256 uint256 uint256
  | HintPriceUpdated uint256 prices3
  | TreasuryUpdated address address
  | PriceSignerUpdated address address
  | Withdrawn address uint256
  | HP_OwnershipTransferred address address

text \<open>
  The storage of the contract. \<open>hp_owner\<close> is the owner of \<^verbatim>\<open>Ownable\<close>, \<open>hp_entered\<close>
  says that the status of \<^verbatim>\<open>ReentrancyGuard\<close> is \<^verbatim>\<open>ENTERED\<close>, and \<open>hp_log\<close> holds the
  events emitted so far. The ledger of the payment token is not part of this storage: the
  functions below take it and return it next to the storage.
\<close>

record hp =
  paymentToken :: address
  treasury :: address
  priceSigner :: address
  hintPrices :: "uint256 \<Rightarrow> prices3"
  purchases :: "address \<Rightarrow> uint256 \<Rightarrow> uint256 \<Rightarrow> bool"
  usedSignatures :: "bytes32 \<Rightarrow> bool"
  totalCollected :: uint256
  hp_owner :: address
  hp_entered :: bool
  hp_log :: "hp_event list"

text \<open>Reading a \<^verbatim>\<open>uint256[3]\<close>: an index beyond 2 is a panic.\<close>

definition price_at :: "prices3 \<Rightarrow> uint256 \<Rightarrow> uint256 option" where
  "price_at p i =
     (case p of (p0, p1, p2) \<Rightarrow>
        if i = 0 then Some p0 else if i = 1 then Some p1 else if i = 2 then Some p2 else None)"

definition default_hintPrices :: "uint256 \<Rightarrow> prices3" where
  "default_hintPrices level =
     (if level = 1 then (1000, 1500, 2000)
      else if level = 2 then (2000, 3000, 4000)
      else if level = 3 then (5000, 7500, 10000)
      else if level = 4 then (10000, 15000, 20000)
      else if level = 5 then (15000, 22500, 30000)
      else if level = 6 then (20000, 30000, 40000)
      else if level = 7 then (30000, 45000, 60000)
      else (0, 0, 0))"

definition hp_constructor :: "ctx \<Rightarrow> address \<Rightarrow> address \<Rightarrow> address \<Rightarrow> error + hp" where
  "hp_constructor c paymentToken' treasury' priceSigner' =
     (if msg_sender c = 0 then Inl OwnableInvalidOwner
      else if paymentToken' = 0 then Inl ZeroAddress
      else if treasury' = 0 then Inl ZeroAddress
      else if priceSigner' = 0 then Inl ZeroAddress
      else Inr \<lparr>paymentToken = paymentToken', treasury = treasury', priceSigner = priceSigner',
                hintPrices = default_hintPrices, purchases = (\<lambda>_ _ _. False),
                usedSignatures = (\<lambda>_. False), totalCollected = 0, hp_owner = msg_sender c,
                hp_entered = False, hp_log = [HP_OwnershipTransferred 0 (msg_sender c)]\<rparr>)"

definition validatePurchase :: "ctx \<Rightarrow> uint256 \<Rightarrow> uint256 \<Rightarrow> hp \<Rightarrow> error + unit" where
  "validatePurchase c level hintIndex s =
     (if level = 0 \<or> level > MAX_LEVEL then Inl InvalidLevel
      else if hintIndex \<ge> MAX_HINTS_PER_LEVEL then Inl InvalidHintIndex
      else if purchases s (msg_sender c) level hintIndex then Inl AlreadyPurchased
      else Inr ())"

text \<open>
  \<^verbatim>\<open>_processPurchase\<close>: the transfer from the buyer to the contract, then the record of
  the purchase and the checked addition to \<open>totalCollected\<close>.
\<close>

definition processPurchase ::
  "('e, 't) externals \<Rightarrow> ctx \<Rightarrow> address \<Rightarrow> uint256 \<Rightarrow> uint256 \<Rightarrow> uint256 \<Rightarrow> hp \<times> 't
     \<Rightarrow> error + hp \<times> 't" where
  "processPurchase X c buyer level hintIndex amount st =
     (case st of (s, t) \<Rightarrow>
        (case safeTransferFrom X (this c) buyer (this c) amount t of
           None \<Rightarrow> Inl ERC20TransferReverted
         | Some t' \<Rightarrow>
             if unat (totalCollected s) + unat amount \<ge> 2 ^ 256 then Inl Panic
             else Inr (s\<lparr>purchases := fun_upd (purchases s) buyer
                             (fun_upd (purchases s buyer) level
                                (fun_upd (purchases s buyer level) hintIndex True)),
                           totalCollected := totalCollected s + amount,
                           hp_log := hp_log s @ [HintPurchased buyer level hintIndex amount]\<rparr>, t')))"

text \<open>
  \<^verbatim>\<open>_recover\<close>: \<open>r\<close> and \<open>s\<close> are the first and the second 32 bytes of the signature, \<open>v\<close>
  its last byte; \<^verbatim>\<open>v += 27\<close> is a checked addition on \<^verbatim>\<open>uint8\<close>.
\<close>

definition checked_add_uint8 :: "uint8 \<Rightarrow> uint8 \<Rightarrow> uint8 option" where
  "checked_add_uint8 a b = (if unat a + unat b < 256 then Some (a + b) else None)"

definition recover :: "('e, 't) externals \<Rightarrow> bytes32 \<Rightarrow> bytes \<Rightarrow> error + address" where
  "recover X hash signature =
     (if length signature \<noteq> 65 then Inr 0
      else
        let r = (word_rcat (take 32 signature) :: bytes32);
            s = (word_rcat (take 32 (drop 32 signature)) :: bytes32);
            v = signature ! 64
        in (case (if v < 27 then checked_add_uint8 v 27 else Some v) of
              None \<Rightarrow> Inl Panic
            | Some v' \<Rightarrow>
                if v' \<noteq> 27 \<and> v' \<noteq> 28 then Inr 0
                else Inr (ecrecover X hash v' r s)))"

definition payForHint ::
  "('e, 't) externals \<Rightarrow> ctx \<Rightarrow> uint256 \<Rightarrow> uint256 \<Rightarrow> hp \<times> 't \<Rightarrow> error + hp \<times> 't" where
  "payForHint X c level hintIndex st =
     (case st of (s, t) \<Rightarrow>
        if hp_entered s then Inl ReentrancyGuardReentrantCall
        else
          (case validatePurchase c level hintIndex s of
             Inl e \<Rightarrow> Inl e
           | Inr _ \<Rightarrow>
               (case price_at (hintPrices s level) hintIndex of
                  None \<Rightarrow> Inl Panic
                | Some price \<Rightarrow>
                    if price = 0 then Inl InvalidAmount
                    else processPurchase X c (msg_sender c) level hintIndex price (s, t))))"

text \<open>
  The bytes hashed for a negotiated price:
  \<^verbatim>\<open>abi.encodePacked(msg.sender, level, hintIndex, negotiatedPrice, deadline, address(this))\<close>.
\<close>

definition price_message ::
  "address \<Rightarrow> uint256 \<Rightarrow> uint256 \<Rightarrow> uint256 \<Rightarrow> uint256 \<Rightarrow> address \<Rightarrow> bytes" where
  "price_message user level hintIndex negotiatedPrice deadline contract =
     address_bytes user @ uint256_bytes level @ uint256_bytes hintIndex @
     uint256_bytes negotiatedPrice @ uint256_bytes deadline @ address_bytes contract"

definition payForHintWithNegotiatedPrice ::
  "('e, 't) externals \<Rightarrow> ctx \<Rightarrow> uint256 \<Rightarrow> uint256 \<Rightarrow> uint256 \<Rightarrow> uint256 \<Rightarrow> bytes \<Rightarrow> hp \<times> 't
     \<Rightarrow> error + hp \<times> 't" where
  "payForHintWithNegotiatedPrice X c level hintIndex negotiatedPrice deadline signature st =
     (case st of (s, t) \<Rightarrow>
        if hp_entered s then Inl ReentrancyGuardReentrantCall
        else
          (case validatePurchase c level hintIndex s of
             Inl e \<Rightarrow> Inl e
           | Inr _ \<Rightarrow>
               if block_timestamp c > deadline then Inl SignatureExpired
               else
                 let messageHash = keccak256 X
                       (price_message (msg_sender c) level hintIndex negotiatedPrice deadline (this c))
                 in if usedSignatures s messageHash then Inl SignatureAlreadyUsed
                    else
                      let ethSignedHash = toEthSignedMessageHash X messageHash
                      in (case recover X ethSignedHash signature of
                            Inl e \<Rightarrow> Inl e
                          | Inr recoveredSigner \<Rightarrow>
                              if recoveredSigner \<noteq> priceSigner s then Inl InvalidSignature
                              else processPurchase X c (msg_sender c) level hintIndex negotiatedPrice
                                     (s\<lparr>usedSignatures := fun_upd (usedSignatures s) messageHash True\<rparr>,
                                      t))))"

definition hasPurchasedHint :: "hp \<Rightarrow> address \<Rightarrow> uint256 \<Rightarrow> uint256 \<Rightarrow> bool" where
  "hasPurchasedHint s user level hintIndex = purchases s user level hintIndex"

definition getHintPrice :: "hp \<Rightarrow> uint256 \<Rightarrow> uint256 \<Rightarrow> error + uint256" where
  "getHintPrice s level hintIndex =
     (if level = 0 \<or> level > MAX_LEVEL then Inl InvalidLevel
      else if hintIndex \<ge> MAX_HINTS_PER_LEVEL then Inl InvalidHintIndex
      else case price_at (hintPrices s level) hintIndex of None \<Rightarrow> Inl Panic | Some p \<Rightarrow> Inr p)"

definition getLevelPrices :: "hp \<Rightarrow> uint256 \<Rightarrow> error + prices3" where
  "getLevelPrices s level =
     (if level = 0 \<or> level > MAX_LEVEL then Inl InvalidLevel else Inr (hintPrices s level))"

definition getUserPurchases :: "hp \<Rightarrow> address \<Rightarrow> uint256 \<Rightarrow> bool \<times> bool \<times> bool" where
  "getUserPurchases s user level =
     (purchases s user level 0, purchases s user level 1, purchases s user level 2)"

definition setHintPrices :: "ctx \<Rightarrow> uint256 \<Rightarrow> prices3 \<Rightarrow> hp \<Rightarrow> error + hp" where
  "setHintPrices c level prices s =
     (if hp_owner s \<noteq> msg_sender c then Inl OwnableUnauthorizedAccount
      else if level = 0 \<or> level > MAX_LEVEL then Inl InvalidLevel
      else Inr (s\<lparr>hintPrices := fun_upd (hintPrices s) level prices,
                  hp_log := hp_log s @ [HintPriceUpdated level prices]\<rparr>))"

definition setTreasury :: "ctx \<Rightarrow> address \<Rightarrow> hp \<Rightarrow> error + hp" where
  "setTreasury c newTreasury s =
     (if hp_owner s \<noteq> msg_sender c then Inl OwnableUnauthorizedAccount
      else if newTreasury = 0 then Inl ZeroAddress
      else Inr (s\<lparr>treasury := newTreasury,
                  hp_log := hp_log s @ [TreasuryUpdated (treasury s) newTreasury]\<rparr>))"

definition setPriceSigner :: "ctx \<Rightarrow> address \<Rightarrow> hp \<Rightarrow> error + hp" where
  "setPriceSigner c newSigner s =
     (if hp_owner s \<noteq> msg_sender c then Inl OwnableUnauthorizedAccount
      else if newSigner = 0 then Inl ZeroAddress
      else Inr (s\<lparr>priceSigner := newSigner,
                  hp_log := hp_log s @ [PriceSignerUpdated (priceSigner s) newSigner]\<rparr>))"

definition withdraw :: "('e, 't) externals \<Rightarrow> ctx \<Rightarrow> hp \<times> 't \<Rightarrow> error + hp \<times> 't" where
  "withdraw X c st =
     (case st of (s, t) \<Rightarrow>
        if hp_owner s \<noteq> msg_sender c then Inl OwnableUnauthorizedAccount
        else if hp_entered s then Inl ReentrancyGuardReentrantCall
        else
          let balance = balanceOf X t (this c)
          in if balance = 0 then Inl InsufficientBalance
             else
               (case safeTransfer X (this c) (treasury s) balance t of
                  None \<Rightarrow> Inl ERC20TransferReverted
                | Some t' \<Rightarrow>
                    Inr (s\<lparr>hp_log := hp_log s @ [Withdrawn (treasury s) balance]\<rparr>, t')))"

definition hp_transferOwnership :: "ctx \<Rightarrow> address \<Rightarrow> hp \<Rightarrow> error + hp" where
  "hp_transferOwnership c newOwner s =
     (if hp_owner s \<noteq> msg_sender c then Inl OwnableUnauthorizedAccount
      else if newOwner = 0 then Inl OwnableInvalidOwner
      else Inr (s\<lparr>hp_owner := newOwner,
                  hp_log := hp_log s @ [HP_OwnershipTransferred (hp_owner s) newOwner]\<rparr>))"

definition hp_renounceOwnership :: "ctx \<Rightarrow> hp \<Rightarrow> error + hp" where
  "hp_renounceOwnership c s =
     (if hp_owner s \<noteq> msg_sender c then Inl OwnableUnauthorizedAccount
      else Inr (s\<lparr>hp_owner := 0,
                  hp_log := hp_log s @ [HP_OwnershipTransferred (hp_owner s) 0]\<rparr>))"

text \<open>
  A transaction sent to the contract, or, with \<open>Token_Transaction f\<close>, any transaction sent
  to the payment token by someone else, which changes the ledger of the token only.
\<close>

datatype 't hp_call =
    PayForHint ctx uint256 uint256
  | PayForHintWithNegotiatedPrice ctx uint256 uint256 uint256 uint256 bytes
  | SetHintPrices ctx uint256 prices3
  | SetTreasury ctx address
  | SetPriceSigner ctx address
  | Withdraw ctx
  | HP_TransferOwnership ctx address
  | HP_RenounceOwnership ctx
  | Token_Transaction "'t \<Rightarrow> 't"

definition on_storage :: "(hp \<Rightarrow> error + hp) \<Rightarrow> hp \<times> 't \<Rightarrow> error + hp \<times> 't" where
  "on_storage f st = (case f (fst st) of Inl e \<Rightarrow> Inl e | Inr s' \<Rightarrow> Inr (s', snd st))"

fun hp_exec :: "('e, 't) externals \<Rightarrow> 't hp_call \<Rightarrow> hp \<times> 't \<Rightarrow> error + hp \<times> 't" where
  "hp_exec X (PayForHint c level hintIndex) st = payForHint X c level hintIndex st"
| "hp_exec X (PayForHintWithNegotiatedPrice c level hintIndex negotiatedPrice deadline signature) st =
     payForHintWithNegotiatedPrice X c level hintIndex negotiatedPrice deadline signature st"
| "hp_exec X (SetHintPrices c level prices) st = on_storage (setHintPrices c level prices) st"
| "hp_exec X (SetTreasury c newTreasury) st = on_storage (setTreasury c newTreasury) st"
| "hp_exec X (SetPriceSigner c newSigner) st = on_storage (setPriceSigner c newSigner) st"
| "hp_exec X (Withdraw c) st = withdraw X c st"
| "hp_exec X (HP_TransferOwnership c newOwner) st = on_storage (hp_transferOwnership c newOwner) st"
| "hp_exec X (HP_RenounceOwnership c) st = on_storage (hp_renounceOwnership c) st"
| "hp_exec X (Token_Transaction f) st = Inr (fst st, f (snd st))"

definition hp_step :: "('e, 't) externals \<Rightarrow> 't hp_call \<Rightarrow> hp \<times> 't \<Rightarrow> hp \<times> 't" where
  "hp_step X call st = (case hp_exec X call st of Inl _ \<Rightarrow> st | Inr st' \<Rightarrow> st')"

definition hp_run :: "('e, 't) externals \<Rightarrow> 't hp_call list \<Rightarrow> hp \<times> 't \<Rightarrow> hp \<times> 't" where
  "hp_run X calls st = fold (hp_step X) calls st"

text \<open>
  The words of the claims about signatures: the recovery id of a 65-byte signature is its
  last byte, plus 27 when it is below 27; a signature is malformed when it is not 65 bytes
  long or its recovery id is neither 27 nor 28.
\<close>

definition recovery_id :: "bytes \<Rightarrow> uint8" where
  "recovery_id signature = (let v = signature ! 64 in if v < 27 then v + 27 else v)"

definition malformed_signature :: "bytes \<Rightarrow> bool" where
  "malformed_signature signature \<longleftrightarrow>
     length signature \<noteq> 65 \<or> (recovery_id signature \<noteq> 27 \<and> recovery_id signature \<noteq> 28)"

text \<open>
  What the constructor establishes and every transaction keeps: the price signer and the
  treasury are not the zero address, and between transactions the reentrancy guard is open.
\<close>

definition hp_inv :: "hp \<Rightarrow> bool" where
  "hp_inv s \<longleftrightarrow> priceSigner s \<noteq> 0 \<and> treasury s \<noteq> 0 \<and> \<not> hp_entered s"

section \<open>The Verification Judge\<close>

text \<open>
  Modelled from the spec: the Verification Judge (\<^verbatim>\<open>backend/judge.py\<close>, \<^verbatim>\<open>verify_password\<close>)
  and the Secret Registry (\<^verbatim>\<open>config.py\<close>) are not among the sources; only the client that
  posts a guess and the note that plans the sentinel are. The definitions follow section
  4.4 of the specification: validate the level, normalize the submitted value (trim
  whitespace, uppercase), accept the sentinel keyword, otherwise compare with the
  uppercased canonical secret of the level. The registry is the parameter \<open>secret\<close>.
  Characters are bytes: whitespace is the six ASCII whitespace characters, and
  uppercasing maps the letters \<open>a..z\<close> to \<open>A..Z\<close> and leaves every other character.
\<close>

definition whitespace :: string where
  "whitespace = [CHR 0x20, CHR 0x09, CHR 0x0A, CHR 0x0B, CHR 0x0C, CHR 0x0D]"

definition is_space :: "char \<Rightarrow> bool" where
  "is_space c = (c \<in> set whitespace)"

definition trim :: "string \<Rightarrow> string" where
  "trim s = rev (dropWhile is_space (rev (dropWhile is_space s)))"

definition lower_letters :: string where
  "lower_letters = ''abcdefghijklmnopqrstuvwxyz''"

definition upper_letters :: string where
  "upper_letters = ''ABCDEFGHIJKLMNOPQRSTUVWXYZ''"

definition to_upper :: "char \<Rightarrow> char" where
  "to_upper c = (case map_of (zip lower_letters upper_letters) c of None \<Rightarrow> c | Some u \<Rightarrow> u)"

text \<open>Modelled from the spec: step 2 of the judge, trim whitespace and uppercase.\<close>

definition normalize_str :: "string \<Rightarrow> string" where
  "normalize_str s = map to_upper (trim s)"

text \<open>
  Modelled from the spec: the fixed sentinel keyword of step 3; the note
  \<^verbatim>\<open>.trae/documents\<close> of the repository names it, \<^verbatim>\<open>SPARK\<close>.
\<close>

definition sentinel :: string where
  "sentinel = ''SPARK''"

text \<open>Modelled from the spec: levels are numbered 1..N, with N = 7.\<close>

definition judge_levels :: int where
  "judge_levels = 7"

text \<open>Modelled from the spec: the verdict of section 3 (correct, the level, the normalized value).\<close>

record verdict =
  correct :: bool
  verdict_level :: int
  normalizedValue :: string

text \<open>
  Modelled from the spec: \<^verbatim>\<open>judge(level, submittedRaw, userAddress)\<close> of section 4.4, steps
  1 to 5; it reads the registry and changes no state.
\<close>

definition judge :: "(int \<Rightarrow> string) \<Rightarrow> int \<Rightarrow> string \<Rightarrow> address \<Rightarrow> error + verdict" where
  "judge secret lvl submittedRaw userAddress =
     (if lvl < 1 \<or> lvl > judge_levels then Inl InvalidLevel
      else
        let v = normalize_str submittedRaw
        in if v = sentinel then Inr \<lparr>correct = True, verdict_level = lvl, normalizedValue = v\<rparr>
           else Inr \<lparr>correct = (v = map to_upper (secret lvl)), verdict_level = lvl,
                     normalizedValue = v\<rparr>)"

section \<open>The completed levels of the web client (App.jsx)\<close>

text \<open>
  A JavaScript number is not-a-number, an infinity or a finite value; a finite double is a
  rational number. What \<^verbatim>\<open>JSON.parse\<close> returns is a \<open>json\<close> value.
\<close>

datatype jsnum = NaN | PosInfinity | NegInfinity | Finite rat

datatype json =
    JNull
  | JBool bool
  | JNumber jsnum
  | JString string
  | JArray "json list"
  | JObject "(string \<times> json) list"

text \<open>A call of the runtime that may throw.\<close>

datatype 'a js_result = Throws | Returns 'a

definition totalLevels :: int where
  "totalLevels = 7"

text \<open>
  The filter \<^verbatim>\<open>Number.isInteger(v) && v >= 1 && v <= totalLevels\<close>. A number that passes it
  is an integer, and the model keeps it as an \<open>int\<close> from there on (\<open>as_int\<close>).
\<close>

definition is_level :: "jsnum \<Rightarrow> bool" where
  "is_level v =
     (case v of
        Finite q \<Rightarrow> q = of_int \<lfloor>q\<rfloor> \<and> 1 \<le> q \<and> q \<le> of_int totalLevels
      | _ \<Rightarrow> False)"

definition as_int :: "jsnum \<Rightarrow> int" where
  "as_int v = (case v of Finite q \<Rightarrow> \<lfloor>q\<rfloor> | _ \<Rightarrow> 0)"

text \<open>\<^verbatim>\<open>Array.from(new Set(xs))\<close>: the elements of \<open>xs\<close> in the order of their first occurrence.\<close>

definition array_from_set :: "'a list \<Rightarrow> 'a list" where
  "array_from_set xs = fold (\<lambda>x acc. if x \<in> set acc then acc else acc @ [x]) xs []"

text \<open>
  The initial value of \<^verbatim>\<open>completedLevels\<close>. The parameters are \<^verbatim>\<open>JSON.parse\<close> (\<open>None\<close>
  when it throws) and the coercion \<^verbatim>\<open>Number\<close> of the runtime; \<open>item\<close> is what
  \<^verbatim>\<open>localStorage.getItem\<close> does: it throws, or returns \<^verbatim>\<open>null\<close> or a string. The
  comparator \<^verbatim>\<open>(a, b) => a - b\<close> sorts numbers in ascending order.
\<close>

definition load_completedLevels ::
  "(string \<Rightarrow> json option) \<Rightarrow> (json \<Rightarrow> jsnum) \<Rightarrow> string option js_result \<Rightarrow> int list" where
  "load_completedLevels JSON_parse Number item =
     (case item of
        Throws \<Rightarrow> []
      | Returns raw \<Rightarrow>
          (case (case raw of
                   None \<Rightarrow> Some (JArray [])
                 | Some str \<Rightarrow> if str = [] then Some (JArray []) else JSON_parse str) of
             None \<Rightarrow> []
           | Some parsed \<Rightarrow>
               (case parsed of
                  JArray vs \<Rightarrow>
                    let filtered = filter is_level (map Number vs)
                    in sort (array_from_set (map as_int filtered))
                | _ \<Rightarrow> [])))"

text \<open>
  The updater of the success path of \<^verbatim>\<open>handleSubmit\<close>:
  \<^verbatim>\<open>prev.includes(level) ? prev : [...prev, level].sort((a, b) => a - b)\<close>.
\<close>

definition add_completed :: "int \<Rightarrow> int list \<Rightarrow> int list" where
  "add_completed lvl prev = (if lvl \<in> set prev then prev else sort (prev @ [lvl]))"

text \<open>
  The state of the component that matters here: the current level, the completed levels,
  and the levels captured by the calls of \<^verbatim>\<open>handleSubmit\<close> that still wait for the answer
  of the server (each call keeps the level of the render that started it).
\<close>

record ui =
  ui_level :: int
  ui_completedLevels :: "int list"
  ui_pending :: "int list"

definition ui_init ::
  "(string \<Rightarrow> json option) \<Rightarrow> (json \<Rightarrow> jsnum) \<Rightarrow> string option js_result \<Rightarrow> ui" where
  "ui_init JSON_parse Number item =
     \<lparr>ui_level = 1, ui_completedLevels = load_completedLevels JSON_parse Number item,
      ui_pending = []\<rparr>"

text \<open>
  What the user and the server can do. \<open>SelectLevel lvl\<close> is a click on an entry of the
  level menu, which offers the levels 1 to \<open>totalLevels\<close> and ignores a locked one
  (\<^verbatim>\<open>lvl > Math.max(0, ...completedLevels) + 1\<close>). \<open>NextLevel\<close> is the button that calls
  \<^verbatim>\<open>startNewRound(level + 1)\<close>; it is rendered only while \<^verbatim>\<open>level < totalLevels\<close> and a
  success message is shown, and the model keeps the first condition only, which allows more
  runs. \<open>Submit\<close> starts \<^verbatim>\<open>handleSubmit\<close>; \<open>Answer i ok\<close> is the answer of the server to
  the \<open>i\<close>-th waiting call, with \<^verbatim>\<open>result.correct = ok\<close>.
\<close>

datatype ui_event = SelectLevel int | NextLevel | Submit | Answer nat bool

definition max_unlocked :: "int list \<Rightarrow> int" where
  "max_unlocked completed = fold max completed 0 + 1"

fun ui_step :: "ui_event \<Rightarrow> ui \<Rightarrow> ui" where
  "ui_step (SelectLevel lvl) s =
     (if 1 \<le> lvl \<and> lvl \<le> totalLevels \<and> \<not> lvl > max_unlocked (ui_completedLevels s)
      then s\<lparr>ui_level := lvl\<rparr> else s)"
| "ui_step NextLevel s =
     (if ui_level s < totalLevels then s\<lparr>ui_level := ui_level s + 1\<rparr> else s)"
| "ui_step Submit s = s\<lparr>ui_pending := ui_pending s @ [ui_level s]\<rparr>"
| "ui_step (Answer i ok) s =
     (if i < length (ui_pending s)
      then s\<lparr>ui_pending := take i (ui_pending s) @ drop (Suc i) (ui_pending s),
             ui_completedLevels :=
               (if ok then add_completed (ui_pending s ! i) (ui_completedLevels s)
                else ui_completedLevels s)\<rparr>
      else s)"

definition ui_run :: "ui_event list \<Rightarrow> ui \<Rightarrow> ui" where
  "ui_run events s = fold ui_step events s"

text \<open>The invariant of the claim: duplicate-free, ascending, every element in 1..7.\<close>

definition levels_ok :: "int list \<Rightarrow> bool" where
  "levels_ok ls \<longleftrightarrow> distinct ls \<and> sorted ls \<and> set ls \<subseteq> {1..7}"

definition ui_inv :: "ui \<Rightarrow> bool" where
  "ui_inv s \<longleftrightarrow>
     1 \<le> ui_level s \<and> ui_level s \<le> 7 \<and> set (ui_pending s) \<subseteq> {1..7} \<and>
     levels_ok (ui_completedLevels s)"

section \<open>A concrete instance\<close>

text \<open>
  A small instance of the externals, on which the model is evaluated: a hash that keeps
  the length and the last byte of its input, one signing key whose signature over a hash is a fixed 65-byte string built
  from that hash, and a token ledger that maps token ids to holders and rejects the
  receiver \<open>demo_no_receiver\<close>, a contract without the ERC721 receiver hook.
\<close>

definition demo_keccak256 :: "bytes \<Rightarrow> bytes32" where
  "demo_keccak256 bs = (if bs = [] then 0 else of_nat (length bs) * 256 + ucast (last bs))"

definition demo_signer :: address where "demo_signer = 0x5151"

definition demo_signature :: "bytes32 \<Rightarrow> bytes" where
  "demo_signature hash = uint256_bytes hash @ replicate 32 1 @ [27]"

definition demo_ECDSA_recover :: "bytes32 \<Rightarrow> bytes \<Rightarrow> address option" where
  "demo_ECDSA_recover hash sg =
     (if sg = demo_signature hash then Some demo_signer
      else if length sg = 65 then Some 0xBAD else None)"

definition demo_no_receiver :: address where
  "demo_no_receiver = 0xC0DE"

definition demo_safeMint :: "address \<Rightarrow> uint256 \<Rightarrow> (uint256 \<Rightarrow> address) \<Rightarrow> (uint256 \<Rightarrow> address) option" where
  "demo_safeMint to tokenId owners =
     (if to = 0 \<or> owners tokenId \<noteq> 0 \<or> to = demo_no_receiver then None
      else Some (fun_upd owners tokenId to))"

definition demo_externals :: "(uint256 \<Rightarrow> address, unit) externals" where
  "demo_externals =
     \<lparr>keccak256 = demo_keccak256, ecrecover = (\<lambda>h v r s. 0), ECDSA_recover = demo_ECDSA_recover,
      safeMint = demo_safeMint, safeTransferFrom = (\<lambda>_ _ _ _ t. Some t),
      safeTransfer = (\<lambda>_ _ _ t. Some t), balanceOf = (\<lambda>t _. 0)\<rparr>"

definition demo_nft_address :: address where "demo_nft_address = 0x12bC0b071f294716E4E3cc64f3Da117519496B24"
definition demo_other_nft_address :: address where "demo_other_nft_address = 0x12bC0b071f294716E4E3cc64f3Da117519496B25"
definition demo_deployer :: address where "demo_deployer = 0xD0"
definition demo_player :: address where "demo_player = 0xA11CE"

definition demo_ctx :: "address \<Rightarrow> uint256 \<Rightarrow> ctx" where
  "demo_ctx sender now = \<lparr>msg_sender = sender, block_timestamp = now, this = demo_nft_address\<rparr>"

text \<open>The same player calling another deployment of the contract, at another address.\<close>

definition demo_other_ctx :: ctx where
  "demo_other_ctx = \<lparr>msg_sender = demo_player, block_timestamp = 2000, this = demo_other_nft_address\<rparr>"

definition demo_nft0 :: "(uint256 \<Rightarrow> address) nft" where
  "demo_nft0 =
     \<lparr>signer = demo_signer, tokenIdCounter = 0, baseURI = '''',
      completedLevels = (\<lambda>_ _. False), tokenLevel = (\<lambda>_. 0),
      tokenCompletedAt = (\<lambda>_. 0), usedNonces = (\<lambda>_. False),
      nft_owner = demo_deployer, erc721 = (\<lambda>_. 0),
      nft_log = [OwnershipTransferred 0 demo_deployer]\<rparr>"

definition demo_mint_signature :: "address \<Rightarrow> uint256 \<Rightarrow> bytes32 \<Rightarrow> uint256 \<Rightarrow> bytes" where
  "demo_mint_signature user level nonce deadline =
     demo_signature
       (toEthSignedMessageHash demo_externals
          (mint_messageHash demo_externals (demo_ctx user 0) level nonce deadline))"

definition demo_mint_call :: "(uint256 \<Rightarrow> address) nft_call" where
  "demo_mint_call =
     MintWithSignature (demo_ctx demo_player 2000) 3 (demo_mint_signature demo_player 3 77 5000) 77 5000"

definition demo_nft1 :: "(uint256 \<Rightarrow> address) nft" where
  "demo_nft1 = nft_step demo_externals demo_mint_call demo_nft0"

text \<open>A deployed payment contract, for the same instance; its token ledger is trivial.\<close>

definition demo_hp_address :: address where "demo_hp_address = 0x4111"
definition demo_usdc :: address where "demo_usdc = 0x05DC"
definition demo_treasury :: address where "demo_treasury = 0x7EA5"

definition demo_hp_ctx :: "address \<Rightarrow> uint256 \<Rightarrow> ctx" where
  "demo_hp_ctx sender now = \<lparr>msg_sender = sender, block_timestamp = now, this = demo_hp_address\<rparr>"

definition demo_hp0 :: hp where
  "demo_hp0 =
     \<lparr>paymentToken = demo_usdc, treasury = demo_treasury, priceSigner = demo_signer,
      hintPrices = default_hintPrices, purchases = (\<lambda>_ _ _. False),
      usedSignatures = (\<lambda>_. False), totalCollected = 0, hp_owner = demo_deployer,
      hp_entered = False, hp_log = [HP_OwnershipTransferred 0 demo_deployer]\<rparr>"

text \<open>A registry of secrets for the examples.\<close>

definition demo_secret :: "int \<Rightarrow> string" where
  "demo_secret lvl = (if lvl = 3 then ''Sunshine'' else if lvl = 5 then ''WAVELENGTH'' else ''COCOLOCO'')"

text \<open>
  A coercion for the examples: it agrees with \<^verbatim>\<open>Number\<close> on numbers, booleans and
  \<^verbatim>\<open>null\<close>; the theorems hold for every coercion.
\<close>

fun demo_Number :: "json \<Rightarrow> jsnum" where
  "demo_Number (JNumber n) = n"
| "demo_Number (JBool b) = Finite (if b then 1 else 0)"
| "demo_Number JNull = Finite 0"
| "demo_Number _ = NaN"

definition demo_JSON_parse :: "string \<Rightarrow> json option" where
  "demo_JSON_parse str =
     (if str = ''[3, 1, 3, 9, 2.5, true]''
      then Some (JArray [JNumber (Finite 3), JNumber (Finite 1), JNumber (Finite 3),
                         JNumber (Finite 9), JNumber (Finite (5 / 2)), JBool True])
      else None)"

section \<open>The packed encoding is injective\<close>

lemma length_be_bytes: "length (be_bytes k x) = k"
  by (induction k arbitrary: x) auto

lemma byte_of_nat_inj:
  "a < 256 \<Longrightarrow> b < 256 \<Longrightarrow> (of_nat a :: 8 word) = of_nat b \<Longrightarrow> a = b"
proof -
  assume a: "a < 256" and b: "b < 256" and e: "(of_nat a :: 8 word) = of_nat b"
  from e have "unat (of_nat a :: 8 word) = unat (of_nat b :: 8 word)" by simp
  with a b show "a = b" by (simp add: unat_of_nat)
qed

lemma be_bytes_inj:
  "x < 256 ^ k \<Longrightarrow> y < 256 ^ k \<Longrightarrow> be_bytes k x = be_bytes k y \<Longrightarrow> x = y"
proof (induction k arbitrary: x y)
  case 0
  then show ?case by simp
next
  case (Suc k)
  from Suc.prems(3) have eq1: "be_bytes k (x div 256) = be_bytes k (y div 256)"
    and eq2: "(of_nat (x mod 256) :: 8 word) = of_nat (y mod 256)"
    by (simp_all add: length_be_bytes)
  have "x div 256 < 256 ^ k" "y div 256 < 256 ^ k"
    using Suc.prems(1,2) by (simp_all add: less_mult_imp_div_less mult.commute)
  then have d: "x div 256 = y div 256" using eq1 by (rule Suc.IH)
  have m: "x mod 256 = y mod 256"
    by (rule byte_of_nat_inj [OF _ _ eq2]) simp_all
  from d m show ?case by (metis div_mult_mod_eq)
qed

lemma address_bytes_inj: "address_bytes a = address_bytes b \<Longrightarrow> a = b"
proof -
  assume h: "address_bytes a = address_bytes b"
  have "unat a < 256 ^ 20" "unat b < 256 ^ 20"
    using unsigned_less [of a] unsigned_less [of b] by simp_all
  with h have "unat a = unat b" unfolding address_bytes_def by (rule be_bytes_inj [rotated 2])
  then show "a = b" by (simp add: word_unat_eq_iff)
qed

lemma uint256_bytes_inj: "uint256_bytes a = uint256_bytes b \<Longrightarrow> a = b"
proof -
  assume h: "uint256_bytes a = uint256_bytes b"
  have "unat a < 256 ^ 32" "unat b < 256 ^ 32"
    using unsigned_less [of a] unsigned_less [of b] by simp_all
  with h have "unat a = unat b" unfolding uint256_bytes_def by (rule be_bytes_inj [rotated 2])
  then show "a = b" by (simp add: word_unat_eq_iff)
qed

section \<open>The achievement token contract: lemmas\<close>

lemma word_one_le_iff: "1 \<le> (x :: uint256) \<longleftrightarrow> x \<noteq> 0"
  by (simp add: word_le_nat_alt unat_gt_0 Suc_le_eq)

lemma mintWithSignature_Inr_iff:
  "mintWithSignature X c level signature nonce deadline s = Inr s' \<longleftrightarrow>
     level \<noteq> 0 \<and> level \<le> MAX_LEVEL \<and> \<not> completedLevels s (msg_sender c) level \<and>
     block_timestamp c \<le> deadline \<and> \<not> usedNonces s nonce \<and>
     ECDSA_recover X (toEthSignedMessageHash X (mint_messageHash X c level nonce deadline)) signature
       = Some (signer s) \<and>
     tokenIdCounter s \<noteq> - 1 \<and>
     (\<exists>e'. safeMint X (msg_sender c) (tokenIdCounter s) (erc721 s) = Some e' \<and>
        s' = s\<lparr>usedNonces := fun_upd (usedNonces s) nonce True,
               completedLevels := fun_upd (completedLevels s) (msg_sender c)
                 (fun_upd (completedLevels s (msg_sender c)) level True),
               tokenIdCounter := tokenIdCounter s + 1,
               tokenLevel := fun_upd (tokenLevel s) (tokenIdCounter s) level,
               tokenCompletedAt := fun_upd (tokenCompletedAt s) (tokenIdCounter s) (block_timestamp c),
               erc721 := e',
               nft_log := nft_log s @ [LevelCompleted (msg_sender c) level (tokenIdCounter s)]\<rparr>)"
  unfolding mintWithSignature_def Let_def
  by (auto simp: not_less split: option.splits)

lemma nft_exec_usedNonces:
  "nft_exec X call s = Inr s' \<Longrightarrow> usedNonces s n \<Longrightarrow> usedNonces s' n"
  by (cases call)
     (auto simp: mintWithSignature_Inr_iff setSigner_def setBaseURI_def nft_transferOwnership_def
        nft_renounceOwnership_def split: if_splits option.splits)

lemma nft_exec_completedLevels:
  "nft_exec X call s = Inr s' \<Longrightarrow> completedLevels s u l \<Longrightarrow> completedLevels s' u l"
  by (cases call)
     (auto simp: mintWithSignature_Inr_iff setSigner_def setBaseURI_def nft_transferOwnership_def
        nft_renounceOwnership_def split: if_splits option.splits)

lemma nft_step_usedNonces: "usedNonces s n \<Longrightarrow> usedNonces (nft_step X call s) n"
  by (auto simp: nft_step_def split: sum.splits dest: nft_exec_usedNonces)

lemma nft_step_completedLevels: "completedLevels s u l \<Longrightarrow> completedLevels (nft_step X call s) u l"
  by (auto simp: nft_step_def split: sum.splits dest: nft_exec_completedLevels)

lemma nft_run_usedNonces: "usedNonces s n \<Longrightarrow> usedNonces (nft_run X calls s) n"
  unfolding nft_run_def by (induction calls arbitrary: s) (simp_all add: nft_step_usedNonces)

lemma nft_run_completedLevels: "completedLevels s u l \<Longrightarrow> completedLevels (nft_run X calls s) u l"
  unfolding nft_run_def by (induction calls arbitrary: s) (simp_all add: nft_step_completedLevels)

lemma mint_used_nonce_reverts:
  "usedNonces s n \<Longrightarrow> isl (mintWithSignature X c level signature n deadline s)"
  by (simp add: mintWithSignature_def)

lemma mint_completed_reverts:
  "completedLevels s (msg_sender c) level \<Longrightarrow> isl (mintWithSignature X c level signature n deadline s)"
  by (simp add: mintWithSignature_def)

lemma nft_step_Inr: "nft_exec X call s = Inr s' \<Longrightarrow> nft_step X call s = s'"
  by (simp add: nft_step_def)

lemma not_isl_Inr: "\<not> isl r \<Longrightarrow> \<exists>s'. r = Inr s'"
  by (cases r) simp_all

lemma accepted_nonce_used:
  "usedNonces s n \<Longrightarrow> accepted X (presents_nonce n) calls s = 0"
proof (induction calls arbitrary: s)
  case Nil
  show ?case by simp
next
  case (Cons call calls)
  have "presents_nonce n call \<Longrightarrow> isl (nft_exec X call s)"
    using Cons.prems by (cases call) (simp_all add: mint_used_nonce_reverts)
  moreover have "accepted X (presents_nonce n) calls (nft_step X call s) = 0"
    using Cons.prems by (intro Cons.IH nft_step_usedNonces)
  ultimately show ?case by auto
qed

lemma accepted_nonce_le_1: "accepted X (presents_nonce n) calls s \<le> 1"
proof (induction calls arbitrary: s)
  case Nil
  show ?case by simp
next
  case (Cons call calls)
  show ?case
  proof (cases "presents_nonce n call \<and> \<not> isl (nft_exec X call s)")
    case True
    then obtain s' where s': "nft_exec X call s = Inr s'" using not_isl_Inr by blast
    from True have "usedNonces s' n"
      using s' by (cases call) (auto simp: mintWithSignature_Inr_iff)
    then have "accepted X (presents_nonce n) calls (nft_step X call s) = 0"
      using s' by (simp add: nft_step_Inr accepted_nonce_used)
    with True show ?thesis by simp
  next
    case False
    then show ?thesis using Cons.IH [of "nft_step X call s"] by auto
  qed
qed

lemma accepted_level_completed:
  "completedLevels s u l \<Longrightarrow> accepted X (mints_level_for u l) calls s = 0"
proof (induction calls arbitrary: s)
  case Nil
  show ?case by simp
next
  case (Cons call calls)
  have "mints_level_for u l call \<Longrightarrow> isl (nft_exec X call s)"
    using Cons.prems by (cases call) (auto simp: mint_completed_reverts)
  moreover have "accepted X (mints_level_for u l) calls (nft_step X call s) = 0"
    using Cons.prems by (intro Cons.IH nft_step_completedLevels)
  ultimately show ?case by auto
qed

lemma accepted_level_le_1: "accepted X (mints_level_for u l) calls s \<le> 1"
proof (induction calls arbitrary: s)
  case Nil
  show ?case by simp
next
  case (Cons call calls)
  show ?case
  proof (cases "mints_level_for u l call \<and> \<not> isl (nft_exec X call s)")
    case True
    then obtain s' where s': "nft_exec X call s = Inr s'" using not_isl_Inr by blast
    from True have "completedLevels s' u l"
      using s' by (cases call) (auto simp: mintWithSignature_Inr_iff)
    then have "accepted X (mints_level_for u l) calls (nft_step X call s) = 0"
      using s' by (simp add: nft_step_Inr accepted_level_completed)
    with True show ?thesis by simp
  next
    case False
    then show ?thesis using Cons.IH [of "nft_step X call s"] by auto
  qed
qed

lemma length_mint_message: "length (mint_message u l n d a) = 136"
  by (simp add: mint_message_def address_bytes_def uint256_bytes_def length_be_bytes)

lemma mint_message_inj:
  "mint_message u l n d a = mint_message u' l' n' d' a' \<longleftrightarrow>
     u = u' \<and> l = l' \<and> n = n' \<and> d = d' \<and> a = a'"
proof
  assume "mint_message u l n d a = mint_message u' l' n' d' a'"
  then have "address_bytes u = address_bytes u' \<and> uint256_bytes l = uint256_bytes l' \<and>
      uint256_bytes n = uint256_bytes n' \<and> uint256_bytes d = uint256_bytes d' \<and>
      address_bytes a = address_bytes a'"
    by (simp add: mint_message_def address_bytes_def uint256_bytes_def length_be_bytes)
  then show "u = u' \<and> l = l' \<and> n = n' \<and> d = d' \<and> a = a'"
    by (blast dest: address_bytes_inj uint256_bytes_inj)
qed simp

lemmas demo_defs = demo_externals_def demo_ECDSA_recover_def demo_safeMint_def demo_ctx_def
  demo_nft0_def demo_mint_signature_def demo_no_receiver_def demo_player_def demo_signer_def
  toEthSignedMessageHash_def mint_messageHash_def MAX_LEVEL_def

lemma demo_nft0_constructed:
  "nft_constructor (demo_ctx demo_deployer 1000) (\<lambda>_. 0) demo_signer '''' = Inr demo_nft0"
  by (simp add: nft_constructor_def demo_defs demo_deployer_def)

lemma demo_mint_ok:
  "(1::uint256) \<le> 3 \<and> (3::uint256) \<le> 7 \<and>
   \<not> completedLevels demo_nft0 (msg_sender (demo_ctx demo_player 2000)) 3 \<and>
   block_timestamp (demo_ctx demo_player 2000) \<le> 5000 \<and> \<not> usedNonces demo_nft0 77 \<and>
   ECDSA_recover demo_externals
     (toEthSignedMessageHash demo_externals
        (mint_messageHash demo_externals (demo_ctx demo_player 2000) 3 77 5000))
     (demo_mint_signature demo_player 3 77 5000) = Some (signer demo_nft0) \<and>
   tokenIdCounter demo_nft0 \<noteq> - 1 \<and>
   safeMint demo_externals (msg_sender (demo_ctx demo_player 2000)) (tokenIdCounter demo_nft0)
     (erc721 demo_nft0) \<noteq> None"
  by (simp add: demo_defs)

lemma demo_mint_call_ok:
  "\<exists>s1. mintWithSignature demo_externals (demo_ctx demo_player 2000) 3
            (demo_mint_signature demo_player 3 77 5000) 77 5000 demo_nft0 = Inr s1"
  by (simp add: mintWithSignature_Inr_iff demo_defs)

lemma demo_nft1_eq:
  "mintWithSignature demo_externals (demo_ctx demo_player 2000) 3
            (demo_mint_signature demo_player 3 77 5000) 77 5000 demo_nft0 = Inr demo_nft1"
  using demo_mint_call_ok by (auto simp: demo_nft1_def demo_mint_call_def nft_step_def)

lemma demo_nft1_completedLevels:
  "completedLevels demo_nft1 u l \<longleftrightarrow> u = demo_player \<and> l = 3"
  by (simp add: demo_nft1_def demo_mint_call_def nft_step_def mintWithSignature_def demo_defs)

lemma nft_step_SetBaseURI:
  "completedLevels (nft_step X (SetBaseURI c uri) s) = completedLevels s"
  by (simp add: nft_step_def setBaseURI_def)

text \<open>The hash and the signatures of the concrete instance.\<close>

lemma be_bytes_not_Nil: "0 < k \<Longrightarrow> be_bytes k x \<noteq> []"
  by (cases k) simp_all

lemma last_be_bytes: "0 < k \<Longrightarrow> last (be_bytes k x) = of_nat (x mod 256)"
  by (cases k) simp_all

lemma demo_keccak256_nonempty:
  "bs \<noteq> [] \<Longrightarrow> demo_keccak256 bs = of_nat (length bs) * 256 + ucast (last bs)"
  by (simp add: demo_keccak256_def)

lemma demo_keccak256_mint_message:
  "demo_keccak256 (mint_message u l n d a) = 136 * 256 + ucast (of_nat (unat a mod 256) :: 8 word)"
proof -
  have ne: "mint_message u l n d a \<noteq> []"
    using length_mint_message [of u l n d a] by auto
  have la: "last (mint_message u l n d a) = of_nat (unat a mod 256)"
    by (simp add: mint_message_def address_bytes_def be_bytes_not_Nil last_be_bytes)
  from demo_keccak256_nonempty [OF ne] show ?thesis
    unfolding la length_mint_message by simp
qed

lemma demo_keccak256_eth:
  "demo_keccak256 (eth_prefix @ uint256_bytes h) = 60 * 256 + ucast (of_nat (unat h mod 256) :: 8 word)"
proof -
  have len: "length (eth_prefix @ uint256_bytes h) = 60"
    by (simp add: eth_prefix_def uint256_bytes_def length_be_bytes)
  have la: "last (eth_prefix @ uint256_bytes h) = of_nat (unat h mod 256)"
    by (simp add: uint256_bytes_def be_bytes_not_Nil last_be_bytes)
  have ne: "eth_prefix @ uint256_bytes h \<noteq> []" by (simp add: eth_prefix_def)
  from demo_keccak256_nonempty [OF ne] show ?thesis
    unfolding la len by simp
qed

lemma demo_hash_A:
  "demo_keccak256 (mint_message demo_player 3 77 5000 demo_nft_address) = 34852"
  by (simp add: demo_keccak256_mint_message demo_nft_address_def)

lemma demo_hash_B:
  "demo_keccak256 (mint_message demo_player 3 77 5000 demo_other_nft_address) = 34853"
  by (simp add: demo_keccak256_mint_message demo_other_nft_address_def)

lemma demo_eth_A: "demo_keccak256 (eth_prefix @ uint256_bytes 34852) = 15396"
  by (simp add: demo_keccak256_eth)

lemma demo_eth_B: "demo_keccak256 (eth_prefix @ uint256_bytes 34853) = 15397"
  by (simp add: demo_keccak256_eth)

lemma demo_signature_inj: "demo_signature e = demo_signature e' \<Longrightarrow> e = e'"
  by (auto simp: demo_signature_def uint256_bytes_def length_be_bytes
        intro: uint256_bytes_inj [unfolded uint256_bytes_def])

lemma demo_recover_unique:
  "demo_ECDSA_recover e sg = Some demo_signer \<Longrightarrow> demo_ECDSA_recover e' sg = Some demo_signer
     \<Longrightarrow> e = e'"
  by (auto simp: demo_ECDSA_recover_def demo_signer_def split: if_splits
        intro: demo_signature_inj)

section \<open>The achievement token contract: theorems\<close>

text \<open>
  C1, as the code has it. \<open>mintWithSignature\<close> succeeds if and only if the level is in
  1..7, the caller has not completed that level, the block timestamp is at most the
  deadline, the nonce is not marked used, the signer recovered from the signature over the
  reconstructed message hash is the configured signer, and moreover the checked increment of
  the token counter does not overflow and the inherited \<open>_safeMint\<close> to the caller does
  not revert. On success the nonce is marked used, the completion of (caller, level) is
  recorded, and the ledger is the one that the single call \<open>_safeMint(caller, tokenId)\<close>
  returns, \<open>tokenId\<close> being the old counter; no other nonce and no other completion
  changes. A call after the deadline always reverts, with \<open>SignatureExpired\<close> whenever the
  level is in range and not yet completed by the caller.
\<close>

theorem mintWithSignature_succeeds_iff:
  "((\<exists>s'. mintWithSignature X c level signature nonce deadline s = Inr s') \<longleftrightarrow>
      1 \<le> level \<and> level \<le> 7 \<and> \<not> completedLevels s (msg_sender c) level \<and>
      block_timestamp c \<le> deadline \<and> \<not> usedNonces s nonce \<and>
      ECDSA_recover X (toEthSignedMessageHash X (mint_messageHash X c level nonce deadline)) signature
        = Some (signer s) \<and>
      tokenIdCounter s \<noteq> - 1 \<and>
      safeMint X (msg_sender c) (tokenIdCounter s) (erc721 s) \<noteq> None) \<and>
   (\<forall>s'. mintWithSignature X c level signature nonce deadline s = Inr s' \<longrightarrow>
      usedNonces s' nonce \<and> completedLevels s' (msg_sender c) level \<and>
      safeMint X (msg_sender c) (tokenIdCounter s) (erc721 s) = Some (erc721 s') \<and>
      tokenIdCounter s' = tokenIdCounter s + 1 \<and>
      tokenLevel s' (tokenIdCounter s) = level \<and>
      tokenCompletedAt s' (tokenIdCounter s) = block_timestamp c \<and>
      (\<forall>n. n \<noteq> nonce \<longrightarrow> usedNonces s' n = usedNonces s n) \<and>
      (\<forall>u l. (u, l) \<noteq> (msg_sender c, level) \<longrightarrow> completedLevels s' u l = completedLevels s u l)) \<and>
   (deadline < block_timestamp c \<longrightarrow>
      isl (mintWithSignature X c level signature nonce deadline s) \<and>
      (1 \<le> level \<and> level \<le> 7 \<and> \<not> completedLevels s (msg_sender c) level \<longrightarrow>
         mintWithSignature X c level signature nonce deadline s = Inl SignatureExpired))"
proof (intro conjI allI impI)
  show "(\<exists>s'. mintWithSignature X c level signature nonce deadline s = Inr s') \<longleftrightarrow>
      1 \<le> level \<and> level \<le> 7 \<and> \<not> completedLevels s (msg_sender c) level \<and>
      block_timestamp c \<le> deadline \<and> \<not> usedNonces s nonce \<and>
      ECDSA_recover X (toEthSignedMessageHash X (mint_messageHash X c level nonce deadline)) signature
        = Some (signer s) \<and>
      tokenIdCounter s \<noteq> - 1 \<and>
      safeMint X (msg_sender c) (tokenIdCounter s) (erc721 s) \<noteq> None"
    by (auto simp: mintWithSignature_Inr_iff word_one_le_iff MAX_LEVEL_def)
next
  fix s' assume h: "mintWithSignature X c level signature nonce deadline s = Inr s'"
  then show "usedNonces s' nonce" "completedLevels s' (msg_sender c) level"
    "safeMint X (msg_sender c) (tokenIdCounter s) (erc721 s) = Some (erc721 s')"
    "tokenIdCounter s' = tokenIdCounter s + 1"
    "tokenLevel s' (tokenIdCounter s) = level"
    "tokenCompletedAt s' (tokenIdCounter s) = block_timestamp c"
    by (auto simp: mintWithSignature_Inr_iff)
  fix n assume "n \<noteq> nonce"
  with h show "usedNonces s' n = usedNonces s n"
    by (auto simp: mintWithSignature_Inr_iff)
next
  fix s' u l assume h: "mintWithSignature X c level signature nonce deadline s = Inr s'"
    and "(u, l) \<noteq> (msg_sender c, level)"
  then show "completedLevels s' u l = completedLevels s u l"
    by (auto simp: mintWithSignature_Inr_iff split: if_splits)
next
  assume d: "deadline < block_timestamp c"
  then show "isl (mintWithSignature X c level signature nonce deadline s)"
    by (simp add: mintWithSignature_def)
  assume "1 \<le> level \<and> level \<le> 7 \<and> \<not> completedLevels s (msg_sender c) level"
  with d show "mintWithSignature X c level signature nonce deadline s = Inl SignatureExpired"
    by (simp add: mintWithSignature_def word_one_le_iff MAX_LEVEL_def not_less)
qed

text \<open>
  The theorem at a concrete call: a mint that succeeds, and the same authorization
  presented after its deadline.
\<close>

theorem mintWithSignature_succeeds_iff_witness:
  "(\<exists>s'. mintWithSignature demo_externals (demo_ctx demo_player 2000) 3
            (demo_mint_signature demo_player 3 77 5000) 77 5000 demo_nft0 = Inr s' \<and>
         usedNonces s' 77 \<and> completedLevels s' demo_player 3 \<and> tokenIdCounter s' = 1) \<and>
   mintWithSignature demo_externals (demo_ctx demo_player 6000) 3
     (demo_mint_signature demo_player 3 77 5000) 77 5000 demo_nft0 = Inl SignatureExpired"
proof -
  note A = mintWithSignature_succeeds_iff [of demo_externals "demo_ctx demo_player 2000" 3
      "demo_mint_signature demo_player 3 77 5000" 77 5000 demo_nft0]
  note B = mintWithSignature_succeeds_iff [of demo_externals "demo_ctx demo_player 6000" 3
      "demo_mint_signature demo_player 3 77 5000" 77 5000 demo_nft0]
  from A [THEN conjunct1] demo_mint_ok obtain s' where
    s': "mintWithSignature demo_externals (demo_ctx demo_player 2000) 3
            (demo_mint_signature demo_player 3 77 5000) 77 5000 demo_nft0 = Inr s'"
    by blast
  from A [THEN conjunct2, THEN conjunct1, rule_format, OF s']
  have "usedNonces s' 77 \<and> completedLevels s' demo_player 3 \<and> tokenIdCounter s' = 1"
    by (simp add: demo_defs)
  moreover have "(5000::uint256) < block_timestamp (demo_ctx demo_player 6000)"
    by (simp add: demo_defs)
  moreover have "(1::uint256) \<le> 3 \<and> (3::uint256) \<le> 7 \<and>
      \<not> completedLevels demo_nft0 (msg_sender (demo_ctx demo_player 6000)) 3"
    by (simp add: demo_defs)
  ultimately show ?thesis
    using s' B [THEN conjunct2, THEN conjunct2] by blast
qed

text \<open>
  C1 as stated fails: the five conditions of the claim hold and the call reverts, because
  the caller is a contract that does not accept ERC721 tokens and \<open>_safeMint\<close> reverts.
\<close>

theorem mintWithSignature_iff_counterexample:
  "nft_constructor (demo_ctx demo_deployer 1000) (\<lambda>_. 0) demo_signer '''' = Inr demo_nft0 \<and>
   (1::uint256) \<le> 3 \<and> (3::uint256) \<le> 7 \<and>
   \<not> completedLevels demo_nft0 demo_no_receiver 3 \<and>
   block_timestamp (demo_ctx demo_no_receiver 2000) \<le> 5000 \<and>
   \<not> usedNonces demo_nft0 77 \<and>
   ECDSA_recover demo_externals
     (toEthSignedMessageHash demo_externals
        (mint_messageHash demo_externals (demo_ctx demo_no_receiver 2000) 3 77 5000))
     (demo_mint_signature demo_no_receiver 3 77 5000) = Some (signer demo_nft0) \<and>
   mintWithSignature demo_externals (demo_ctx demo_no_receiver 2000) 3
     (demo_mint_signature demo_no_receiver 3 77 5000) 77 5000 demo_nft0 = Inl ERC721Reverted"
  by (simp add: demo_nft0_constructed) (simp add: mintWithSignature_def demo_defs)

text \<open>
  C2, as the code has it. Along any run of transactions, at most one call that presents
  the nonce \<open>n\<close> is accepted. Once a call presenting \<open>n\<close> has succeeded, every later
  \<open>mintWithSignature\<close> presenting \<open>n\<close> reverts, whatever its caller, level, signature
  and deadline and whatever transactions came between; the revert is \<open>NonceAlreadyUsed\<close>
  when the three checks that the source makes before the nonce check pass (level in range,
  level not completed by the caller, deadline not passed).
\<close>

theorem nonce_never_accepted_twice:
  "accepted X (presents_nonce n) calls start \<le> 1 \<and>
   (mintWithSignature X c level signature n deadline s = Inr s' \<longrightarrow>
      isl (mintWithSignature X c' level' signature' n deadline' (nft_run X calls s')) \<and>
      (1 \<le> level' \<and> level' \<le> 7 \<and>
       \<not> completedLevels (nft_run X calls s') (msg_sender c') level' \<and>
       block_timestamp c' \<le> deadline' \<longrightarrow>
         mintWithSignature X c' level' signature' n deadline' (nft_run X calls s')
           = Inl NonceAlreadyUsed))"
proof (intro conjI impI)
  show "accepted X (presents_nonce n) calls start \<le> 1" by (rule accepted_nonce_le_1)
next
  assume "mintWithSignature X c level signature n deadline s = Inr s'"
  then have "usedNonces s' n" by (auto simp: mintWithSignature_Inr_iff)
  then have u: "usedNonces (nft_run X calls s') n" by (rule nft_run_usedNonces)
  then show "isl (mintWithSignature X c' level' signature' n deadline' (nft_run X calls s'))"
    by (rule mint_used_nonce_reverts)
  assume "1 \<le> level' \<and> level' \<le> 7 \<and>
       \<not> completedLevels (nft_run X calls s') (msg_sender c') level' \<and>
       block_timestamp c' \<le> deadline'"
  with u show "mintWithSignature X c' level' signature' n deadline' (nft_run X calls s')
           = Inl NonceAlreadyUsed"
    by (simp add: mintWithSignature_def word_one_le_iff MAX_LEVEL_def not_less)
qed

text \<open>The theorem at a concrete run: another player presents the nonce of a minted token.\<close>

theorem nonce_never_accepted_twice_witness:
  "mintWithSignature demo_externals (demo_ctx 0xB0B 2500) 4
     (demo_mint_signature 0xB0B 4 77 9000) 77 9000
     (nft_run demo_externals [SetBaseURI (demo_ctx demo_deployer 2100) ''ipfs://x''] demo_nft1)
     = Inl NonceAlreadyUsed"
proof -
  note A = nonce_never_accepted_twice [where X = demo_externals and n = 77 and start = demo_nft0
      and c = "demo_ctx demo_player 2000" and level = 3
      and signature = "demo_mint_signature demo_player 3 77 5000" and deadline = 5000
      and s = demo_nft0 and s' = demo_nft1 and c' = "demo_ctx 0xB0B 2500" and level' = 4
      and signature' = "demo_mint_signature 0xB0B 4 77 9000" and deadline' = 9000
      and calls = "[SetBaseURI (demo_ctx demo_deployer 2100) ''ipfs://x'']"]
  have "(1::uint256) \<le> 4 \<and> (4::uint256) \<le> 7 \<and>
     \<not> completedLevels
         (nft_run demo_externals [SetBaseURI (demo_ctx demo_deployer 2100) ''ipfs://x''] demo_nft1)
         (msg_sender (demo_ctx 0xB0B 2500)) 4 \<and>
     block_timestamp (demo_ctx 0xB0B 2500) \<le> 9000"
    by (simp add: nft_run_def nft_step_SetBaseURI demo_nft1_completedLevels)
       (simp add: demo_defs)
  with A [THEN conjunct2, rule_format, OF demo_nft1_eq] show ?thesis by blast
qed

text \<open>
  C2 as stated fails: after a mint with nonce 77, a call that presents nonce 77 with level
  0 reverts with \<open>InvalidLevel\<close>, not with \<open>NonceAlreadyUsed\<close>.
\<close>

theorem nonce_reverts_with_NonceAlreadyUsed_counterexample:
  "nft_constructor (demo_ctx demo_deployer 1000) (\<lambda>_. 0) demo_signer '''' = Inr demo_nft0 \<and>
   mintWithSignature demo_externals (demo_ctx demo_player 2000) 3
     (demo_mint_signature demo_player 3 77 5000) 77 5000 demo_nft0 = Inr demo_nft1 \<and>
   mintWithSignature demo_externals (demo_ctx demo_player 2500) 0
     (demo_mint_signature demo_player 0 77 5000) 77 5000 demo_nft1 = Inl InvalidLevel \<and>
   Inl InvalidLevel \<noteq> (Inl NonceAlreadyUsed :: error + (uint256 \<Rightarrow> address) nft)"
  by (simp add: demo_nft1_eq demo_nft0_constructed) (simp add: mintWithSignature_def)

text \<open>
  C3. The hash that the signature is checked against is \<open>keccak256\<close> of the packed
  concatenation of the caller's address, the level, the nonce, the deadline and the
  contract's own address, in this order: 136 bytes, which determine the five fields. When
  the other guards pass, a call succeeds exactly if the signature recovers to the signer
  over the hash of the caller's own fields and this contract's address. So a signature
  that was accepted for one user, level, nonce, deadline and contract is rejected for any
  other, also by another deployment with the same signer, provided that \<open>keccak256\<close> does
  not collide on the two messages nor on the two prefixed hashes and that the signature
  recovers to the signer over at most one of the two resulting hashes. These are
  hypotheses about the two messages at hand: no function from byte strings to 32 bytes is
  injective.
\<close>

theorem mint_message_binds_fields:
  "mint_messageHash X c level nonce deadline =
     keccak256 X (address_bytes (msg_sender c) @ uint256_bytes level @ uint256_bytes nonce @
                  uint256_bytes deadline @ address_bytes (this c)) \<and>
   length (mint_message user level nonce deadline contract) = 20 + 32 + 32 + 32 + 20 \<and>
   (mint_message user level nonce deadline contract = mint_message user' level' nonce' deadline' contract'
      \<longleftrightarrow> user = user' \<and> level = level' \<and> nonce = nonce' \<and> deadline = deadline' \<and> contract = contract') \<and>
   (mintWithSignature X c level signature nonce deadline s = Inr s' \<longrightarrow>
      ECDSA_recover X
        (toEthSignedMessageHash X
           (keccak256 X (mint_message (msg_sender c) level nonce deadline (this c)))) signature
        = Some (signer s)) \<and>
   (1 \<le> level \<and> level \<le> 7 \<and> \<not> completedLevels s (msg_sender c) level \<and>
    block_timestamp c \<le> deadline \<and> \<not> usedNonces s nonce \<and> tokenIdCounter s \<noteq> - 1 \<and>
    safeMint X (msg_sender c) (tokenIdCounter s) (erc721 s) \<noteq> None \<longrightarrow>
      ((\<exists>r. mintWithSignature X c level signature nonce deadline s = Inr r) \<longleftrightarrow>
       ECDSA_recover X
         (toEthSignedMessageHash X
            (keccak256 X (mint_message (msg_sender c) level nonce deadline (this c)))) signature
         = Some (signer s))) \<and>
   (mintWithSignature X c level signature nonce deadline s = Inr s' \<longrightarrow>
    signer t = signer s \<longrightarrow>
    (keccak256 X (mint_message (msg_sender c') level' nonce' deadline' (this c')) =
       keccak256 X (mint_message (msg_sender c) level nonce deadline (this c)) \<longrightarrow>
     mint_message (msg_sender c') level' nonce' deadline' (this c') =
       mint_message (msg_sender c) level nonce deadline (this c)) \<longrightarrow>
    (toEthSignedMessageHash X (mint_messageHash X c' level' nonce' deadline') =
       toEthSignedMessageHash X (mint_messageHash X c level nonce deadline) \<longrightarrow>
     mint_messageHash X c' level' nonce' deadline' = mint_messageHash X c level nonce deadline) \<longrightarrow>
    (ECDSA_recover X (toEthSignedMessageHash X (mint_messageHash X c' level' nonce' deadline'))
       signature = Some (signer s) \<longrightarrow>
     ECDSA_recover X (toEthSignedMessageHash X (mint_messageHash X c level nonce deadline))
       signature = Some (signer s) \<longrightarrow>
     toEthSignedMessageHash X (mint_messageHash X c' level' nonce' deadline') =
       toEthSignedMessageHash X (mint_messageHash X c level nonce deadline)) \<longrightarrow>
    (msg_sender c' \<noteq> msg_sender c \<or> level' \<noteq> level \<or> nonce' \<noteq> nonce \<or>
     deadline' \<noteq> deadline \<or> this c' \<noteq> this c) \<longrightarrow>
    isl (mintWithSignature X c' level' signature nonce' deadline' t))"
proof (intro conjI impI)
  show "mint_messageHash X c level nonce deadline =
     keccak256 X (address_bytes (msg_sender c) @ uint256_bytes level @ uint256_bytes nonce @
                  uint256_bytes deadline @ address_bytes (this c))"
    by (simp add: mint_messageHash_def mint_message_def)
  show "length (mint_message user level nonce deadline contract) = 20 + 32 + 32 + 32 + 20"
    by (simp add: length_mint_message)
  show "mint_message user level nonce deadline contract = mint_message user' level' nonce' deadline' contract'
      \<longleftrightarrow> user = user' \<and> level = level' \<and> nonce = nonce' \<and> deadline = deadline' \<and> contract = contract'"
    by (rule mint_message_inj)
next
  assume "mintWithSignature X c level signature nonce deadline s = Inr s'"
  then show "ECDSA_recover X
        (toEthSignedMessageHash X
           (keccak256 X (mint_message (msg_sender c) level nonce deadline (this c)))) signature
        = Some (signer s)"
    by (simp add: mintWithSignature_Inr_iff mint_messageHash_def)
next
  assume "1 \<le> level \<and> level \<le> 7 \<and> \<not> completedLevels s (msg_sender c) level \<and>
    block_timestamp c \<le> deadline \<and> \<not> usedNonces s nonce \<and> tokenIdCounter s \<noteq> - 1 \<and>
    safeMint X (msg_sender c) (tokenIdCounter s) (erc721 s) \<noteq> None"
  then show "(\<exists>r. mintWithSignature X c level signature nonce deadline s = Inr r) \<longleftrightarrow>
       ECDSA_recover X
         (toEthSignedMessageHash X
            (keccak256 X (mint_message (msg_sender c) level nonce deadline (this c)))) signature
         = Some (signer s)"
    by (auto simp: mintWithSignature_Inr_iff mint_messageHash_def word_one_le_iff MAX_LEVEL_def)
next
  assume ok: "mintWithSignature X c level signature nonce deadline s = Inr s'"
    and sg: "signer t = signer s"
    and h1: "keccak256 X (mint_message (msg_sender c') level' nonce' deadline' (this c')) =
       keccak256 X (mint_message (msg_sender c) level nonce deadline (this c)) \<longrightarrow>
     mint_message (msg_sender c') level' nonce' deadline' (this c') =
       mint_message (msg_sender c) level nonce deadline (this c)"
    and h2: "toEthSignedMessageHash X (mint_messageHash X c' level' nonce' deadline') =
       toEthSignedMessageHash X (mint_messageHash X c level nonce deadline) \<longrightarrow>
     mint_messageHash X c' level' nonce' deadline' = mint_messageHash X c level nonce deadline"
    and h3: "ECDSA_recover X (toEthSignedMessageHash X (mint_messageHash X c' level' nonce' deadline'))
       signature = Some (signer s) \<longrightarrow>
     ECDSA_recover X (toEthSignedMessageHash X (mint_messageHash X c level nonce deadline))
       signature = Some (signer s) \<longrightarrow>
     toEthSignedMessageHash X (mint_messageHash X c' level' nonce' deadline') =
       toEthSignedMessageHash X (mint_messageHash X c level nonce deadline)"
    and diff: "msg_sender c' \<noteq> msg_sender c \<or> level' \<noteq> level \<or> nonce' \<noteq> nonce \<or>
     deadline' \<noteq> deadline \<or> this c' \<noteq> this c"
  show "isl (mintWithSignature X c' level' signature nonce' deadline' t)"
  proof (rule ccontr)
    assume "\<not> isl (mintWithSignature X c' level' signature nonce' deadline' t)"
    then obtain t' where "mintWithSignature X c' level' signature nonce' deadline' t = Inr t'"
      using not_isl_Inr by blast
    then have "ECDSA_recover X (toEthSignedMessageHash X (mint_messageHash X c' level' nonce' deadline'))
       signature = Some (signer s)"
      using sg by (simp add: mintWithSignature_Inr_iff)
    moreover from ok have "ECDSA_recover X
        (toEthSignedMessageHash X (mint_messageHash X c level nonce deadline)) signature
        = Some (signer s)"
      by (simp add: mintWithSignature_Inr_iff)
    ultimately have "toEthSignedMessageHash X (mint_messageHash X c' level' nonce' deadline') =
       toEthSignedMessageHash X (mint_messageHash X c level nonce deadline)"
      using h3 by blast
    with h2 have "mint_messageHash X c' level' nonce' deadline' = mint_messageHash X c level nonce deadline"
      by blast
    with h1 have "mint_message (msg_sender c') level' nonce' deadline' (this c') =
       mint_message (msg_sender c) level nonce deadline (this c)"
      by (simp add: mint_messageHash_def)
    then have "msg_sender c' = msg_sender c \<and> level' = level \<and> nonce' = nonce \<and>
        deadline' = deadline \<and> this c' = this c"
      by (simp add: mint_message_inj)
    with diff show False by blast
  qed
qed

text \<open>
  The theorem at a concrete authorization: it is accepted by the contract it was signed
  for and rejected by another deployment with the same signer; and two messages that
  differ in the user.
\<close>

theorem mint_message_binds_fields_witness:
  "ECDSA_recover demo_externals
     (toEthSignedMessageHash demo_externals
        (keccak256 demo_externals (mint_message demo_player 3 77 5000 demo_nft_address)))
     (demo_mint_signature demo_player 3 77 5000) = Some demo_signer \<and>
   mint_message demo_player 3 77 5000 demo_nft_address \<noteq> mint_message 0xB0B 3 77 5000 demo_nft_address \<and>
   (\<exists>r. mintWithSignature demo_externals (demo_ctx demo_player 2000) 3
          (demo_mint_signature demo_player 3 77 5000) 77 5000 demo_nft0 = Inr r) \<and>
   isl (mintWithSignature demo_externals demo_other_ctx 3
          (demo_mint_signature demo_player 3 77 5000) 77 5000 demo_nft0)"
proof -
  note A = mint_message_binds_fields [where X = demo_externals
      and c = "demo_ctx demo_player 2000" and level = 3 and nonce = 77 and deadline = 5000
      and user = demo_player and contract = demo_nft_address and user' = "0xB0B" and level' = 3
      and nonce' = 77 and deadline' = 5000 and contract' = demo_nft_address
      and signature = "demo_mint_signature demo_player 3 77 5000" and s = demo_nft0
      and s' = demo_nft1 and c' = demo_other_ctx and t = demo_nft0]
  have rec: "ECDSA_recover demo_externals
     (toEthSignedMessageHash demo_externals
        (keccak256 demo_externals (mint_message demo_player 3 77 5000 demo_nft_address)))
     (demo_mint_signature demo_player 3 77 5000) = Some demo_signer"
    using A [THEN conjunct2, THEN conjunct2, THEN conjunct2, THEN conjunct1, rule_format,
        OF demo_nft1_eq]
    by (simp add: demo_ctx_def demo_nft0_def)
  have ne: "demo_player \<noteq> (0xB0B :: address)" by (simp add: demo_player_def)
  have guards: "(1::uint256) \<le> 3 \<and> (3::uint256) \<le> 7 \<and>
      \<not> completedLevels demo_nft0 (msg_sender (demo_ctx demo_player 2000)) 3 \<and>
      block_timestamp (demo_ctx demo_player 2000) \<le> 5000 \<and> \<not> usedNonces demo_nft0 77 \<and>
      tokenIdCounter demo_nft0 \<noteq> - 1 \<and>
      safeMint demo_externals (msg_sender (demo_ctx demo_player 2000)) (tokenIdCounter demo_nft0)
        (erc721 demo_nft0) \<noteq> None"
    by (simp add: demo_defs)
  have ex: "\<exists>r. mintWithSignature demo_externals (demo_ctx demo_player 2000) 3
          (demo_mint_signature demo_player 3 77 5000) 77 5000 demo_nft0 = Inr r"
    using A [THEN conjunct2, THEN conjunct2, THEN conjunct2, THEN conjunct2, THEN conjunct1,
        rule_format, OF guards] rec
    by (simp add: demo_ctx_def demo_nft0_def)
  have hA: "mint_messageHash demo_externals (demo_ctx demo_player 2000) 3 77 5000 = 34852"
    by (simp add: mint_messageHash_def demo_externals_def demo_ctx_def demo_hash_A)
  have hB: "mint_messageHash demo_externals demo_other_ctx 3 77 5000 = 34853"
    by (simp add: mint_messageHash_def demo_externals_def demo_other_ctx_def demo_hash_B)
  have eA: "toEthSignedMessageHash demo_externals 34852 = 15396"
    by (simp add: toEthSignedMessageHash_def demo_externals_def demo_eth_A)
  have eB: "toEthSignedMessageHash demo_externals 34853 = 15397"
    by (simp add: toEthSignedMessageHash_def demo_externals_def demo_eth_B)
  have h1: "keccak256 demo_externals
        (mint_message (msg_sender demo_other_ctx) 3 77 5000 (this demo_other_ctx)) =
      keccak256 demo_externals
        (mint_message (msg_sender (demo_ctx demo_player 2000)) 3 77 5000
           (this (demo_ctx demo_player 2000))) \<longrightarrow>
      mint_message (msg_sender demo_other_ctx) 3 77 5000 (this demo_other_ctx) =
        mint_message (msg_sender (demo_ctx demo_player 2000)) 3 77 5000
          (this (demo_ctx demo_player 2000))"
    using hA hB by (simp add: mint_messageHash_def)
  have h2: "toEthSignedMessageHash demo_externals
        (mint_messageHash demo_externals demo_other_ctx 3 77 5000) =
      toEthSignedMessageHash demo_externals
        (mint_messageHash demo_externals (demo_ctx demo_player 2000) 3 77 5000) \<longrightarrow>
      mint_messageHash demo_externals demo_other_ctx 3 77 5000 =
        mint_messageHash demo_externals (demo_ctx demo_player 2000) 3 77 5000"
    by (simp add: hA hB eA eB)
  have h3: "ECDSA_recover demo_externals
        (toEthSignedMessageHash demo_externals
           (mint_messageHash demo_externals demo_other_ctx 3 77 5000))
        (demo_mint_signature demo_player 3 77 5000) = Some (signer demo_nft0) \<longrightarrow>
      ECDSA_recover demo_externals
        (toEthSignedMessageHash demo_externals
           (mint_messageHash demo_externals (demo_ctx demo_player 2000) 3 77 5000))
        (demo_mint_signature demo_player 3 77 5000) = Some (signer demo_nft0) \<longrightarrow>
      toEthSignedMessageHash demo_externals
        (mint_messageHash demo_externals demo_other_ctx 3 77 5000) =
      toEthSignedMessageHash demo_externals
        (mint_messageHash demo_externals (demo_ctx demo_player 2000) 3 77 5000)"
    by (auto simp: demo_externals_def demo_nft0_def dest: demo_recover_unique)
  have d: "msg_sender demo_other_ctx \<noteq> msg_sender (demo_ctx demo_player 2000) \<or> (3::uint256) \<noteq> 3 \<or>
      (77::bytes32) \<noteq> 77 \<or> (5000::uint256) \<noteq> 5000 \<or>
      this demo_other_ctx \<noteq> this (demo_ctx demo_player 2000)"
    by (simp add: demo_other_ctx_def demo_ctx_def demo_other_nft_address_def demo_nft_address_def)
  have rej: "isl (mintWithSignature demo_externals demo_other_ctx 3
          (demo_mint_signature demo_player 3 77 5000) 77 5000 demo_nft0)"
    by (rule A [THEN conjunct2, THEN conjunct2, THEN conjunct2, THEN conjunct2, THEN conjunct2,
        THEN mp, OF demo_nft1_eq, THEN mp, OF refl, THEN mp, OF h1, THEN mp, OF h2,
        THEN mp, OF h3, THEN mp, OF d])
  from rec ne ex rej A [THEN conjunct2, THEN conjunct2, THEN conjunct1] show ?thesis by blast
qed

text \<open>
  C4. Along any run of transactions, at most one mint for a pair (user, level) is
  accepted. After a successful \<open>mintWithSignature\<close> for (user, level), the completion flag
  is true, it is still true after any further transactions, and every later
  \<open>mintWithSignature\<close> of the same user for the same level reverts with
  \<open>AlreadyCompleted\<close>.
\<close>

theorem completion_recorded_once:
  "accepted X (mints_level_for u l) calls start \<le> 1 \<and>
   (mintWithSignature X c level signature n deadline s = Inr s' \<longrightarrow>
      completedLevels s' (msg_sender c) level \<and>
      completedLevels (nft_run X calls s') (msg_sender c) level \<and>
      (msg_sender c' = msg_sender c \<longrightarrow>
         mintWithSignature X c' level signature' n' deadline' (nft_run X calls s')
           = Inl AlreadyCompleted))"
proof (intro conjI impI)
  show "accepted X (mints_level_for u l) calls start \<le> 1" by (rule accepted_level_le_1)
next
  assume h: "mintWithSignature X c level signature n deadline s = Inr s'"
  then show sc: "completedLevels s' (msg_sender c) level"
    by (auto simp: mintWithSignature_Inr_iff)
  then show r: "completedLevels (nft_run X calls s') (msg_sender c) level"
    by (rule nft_run_completedLevels)
  from h have lv: "level \<noteq> 0" "level \<le> MAX_LEVEL" by (auto simp: mintWithSignature_Inr_iff)
  assume "msg_sender c' = msg_sender c"
  with r lv show "mintWithSignature X c' level signature' n' deadline' (nft_run X calls s')
           = Inl AlreadyCompleted"
    by (simp add: mintWithSignature_def not_less)
qed

text \<open>The theorem at a concrete run: the player asks again for level 3 with a fresh nonce.\<close>

theorem completion_recorded_once_witness:
  "completedLevels
     (nft_run demo_externals [SetBaseURI (demo_ctx demo_deployer 2100) ''ipfs://x''] demo_nft1)
     demo_player 3 \<and>
   mintWithSignature demo_externals (demo_ctx demo_player 2600) 3
     (demo_mint_signature demo_player 3 78 9000) 78 9000
     (nft_run demo_externals [SetBaseURI (demo_ctx demo_deployer 2100) ''ipfs://x''] demo_nft1)
     = Inl AlreadyCompleted"
proof -
  note A = completion_recorded_once [where X = demo_externals and u = demo_player and l = 3
      and start = demo_nft0 and c = "demo_ctx demo_player 2000" and level = 3
      and signature = "demo_mint_signature demo_player 3 77 5000" and n = 77 and deadline = 5000
      and s = demo_nft0 and s' = demo_nft1
      and calls = "[SetBaseURI (demo_ctx demo_deployer 2100) ''ipfs://x'']"
      and c' = "demo_ctx demo_player 2600"
      and signature' = "demo_mint_signature demo_player 3 78 9000" and n' = 78 and deadline' = 9000]
  have "msg_sender (demo_ctx demo_player 2600) = msg_sender (demo_ctx demo_player 2000)"
    by (simp add: demo_ctx_def)
  with A [THEN conjunct2, rule_format, OF demo_nft1_eq] show ?thesis
    by (simp add: demo_ctx_def)
qed

text \<open>
  C8. The tier label bands the levels: 1 and 2 are Bronze, 3 and 4 Silver, 5 and 6 Gold,
  7 Platinum; \<open>getTier\<close> has no argument but the level.
\<close>

theorem getTier_bands:
  "getTier 1 = ''Bronze'' \<and> getTier 2 = ''Bronze'' \<and> getTier 3 = ''Silver'' \<and>
   getTier 4 = ''Silver'' \<and> getTier 5 = ''Gold'' \<and> getTier 6 = ''Gold'' \<and>
   getTier 7 = ''Platinum''"
  by (simp add: getTier_def)

section \<open>The hint payment contract: lemmas\<close>

lemma checked_add_27: "v < 27 \<Longrightarrow> checked_add_uint8 v 27 = Some (v + 27)"
  by (simp add: checked_add_uint8_def word_less_nat_alt)

lemma recover_eq:
  "recover X hash sg =
     (if malformed_signature sg then Inr 0
      else Inr (ecrecover X hash (recovery_id sg) (word_rcat (take 32 sg))
                  (word_rcat (take 32 (drop 32 sg)))))"
  by (auto simp: recover_def malformed_signature_def recovery_id_def Let_def checked_add_27)

lemma recover_total: "\<exists>a. recover X hash sg = Inr a"
  by (simp add: recover_eq)

lemma recover_malformed: "malformed_signature sg \<Longrightarrow> recover X hash sg = Inr 0"
  by (simp add: recover_eq)

lemma hp_constructor_inv: "hp_constructor c tok tr ps = Inr s \<Longrightarrow> hp_inv s"
  by (auto simp: hp_constructor_def hp_inv_def split: if_splits)

lemma processPurchase_inv:
  "processPurchase X c buyer level i amount (s, t) = Inr (s', t') \<Longrightarrow> hp_inv s \<Longrightarrow> hp_inv s'"
  by (auto simp: processPurchase_def hp_inv_def split: option.splits if_splits)

lemma payForHint_inv:
  "payForHint X c level i (s, t) = Inr (s', t') \<Longrightarrow> hp_inv s \<Longrightarrow> hp_inv s'"
  by (auto simp: payForHint_def split: sum.splits option.splits if_splits
        dest: processPurchase_inv)

lemma payForHintWithNegotiatedPrice_inv:
  assumes "payForHintWithNegotiatedPrice X c level i p d sg (s, t) = Inr (s', t')" and "hp_inv s"
  shows "hp_inv s'"
proof -
  from assms(1) obtain h where
    "processPurchase X c (msg_sender c) level i p
       (s\<lparr>usedSignatures := fun_upd (usedSignatures s) h True\<rparr>, t) = Inr (s', t')"
    by (auto simp: payForHintWithNegotiatedPrice_def Let_def split: sum.splits if_splits)
  moreover from assms(2) have "hp_inv (s\<lparr>usedSignatures := fun_upd (usedSignatures s) h True\<rparr>)"
    by (simp add: hp_inv_def)
  ultimately show ?thesis by (rule processPurchase_inv)
qed

lemma withdraw_inv: "withdraw X c (s, t) = Inr (s', t') \<Longrightarrow> hp_inv s \<Longrightarrow> hp_inv s'"
  by (auto simp: withdraw_def Let_def hp_inv_def split: option.splits if_splits)

lemma on_storage_Inr:
  "on_storage f (s, t) = Inr (s', t') \<longleftrightarrow> f s = Inr s' \<and> t' = t"
  by (auto simp: on_storage_def split: sum.splits)

lemma hp_exec_inv:
  "hp_exec X call (s, t) = Inr (s', t') \<Longrightarrow> hp_inv s \<Longrightarrow> hp_inv s'"
proof (cases call)
  case (PayForHint c level i)
  then show "hp_exec X call (s, t) = Inr (s', t') \<Longrightarrow> hp_inv s \<Longrightarrow> hp_inv s'"
    by (auto dest: payForHint_inv)
next
  case (PayForHintWithNegotiatedPrice c level i p d sg)
  then show "hp_exec X call (s, t) = Inr (s', t') \<Longrightarrow> hp_inv s \<Longrightarrow> hp_inv s'"
    by (auto dest: payForHintWithNegotiatedPrice_inv)
next
  case (Withdraw c)
  then show "hp_exec X call (s, t) = Inr (s', t') \<Longrightarrow> hp_inv s \<Longrightarrow> hp_inv s'"
    by (auto dest: withdraw_inv)
qed (auto simp: on_storage_Inr hp_inv_def setHintPrices_def setTreasury_def setPriceSigner_def
       hp_transferOwnership_def hp_renounceOwnership_def split: if_splits)

lemma hp_step_inv: "hp_inv (fst st) \<Longrightarrow> hp_inv (fst (hp_step X call st))"
  by (cases st) (auto simp: hp_step_def split: sum.splits dest: hp_exec_inv)

lemma hp_run_inv: "hp_inv (fst st) \<Longrightarrow> hp_inv (fst (hp_run X calls st))"
  unfolding hp_run_def by (induction calls arbitrary: st) (simp_all add: hp_step_inv)

lemma pay_malformed:
  assumes "malformed_signature sg" and "hp_inv s"
  shows "payForHintWithNegotiatedPrice X c level i p d sg (s, t) =
     (if level = 0 \<or> level > 7 then Inl InvalidLevel
      else if i \<ge> 3 then Inl InvalidHintIndex
      else if purchases s (msg_sender c) level i then Inl AlreadyPurchased
      else if block_timestamp c > d then Inl SignatureExpired
      else if usedSignatures s (keccak256 X (price_message (msg_sender c) level i p d (this c)))
        then Inl SignatureAlreadyUsed
      else Inl InvalidSignature)"
  using assms
  by (auto simp: payForHintWithNegotiatedPrice_def validatePurchase_def Let_def hp_inv_def
        recover_malformed MAX_LEVEL_def MAX_HINTS_PER_LEVEL_def)

lemma hp_step_isl: "isl (hp_exec X call st) \<Longrightarrow> hp_step X call st = st"
  by (cases "hp_exec X call st") (simp_all add: hp_step_def)

lemmas demo_hp_defs = demo_hp0_def demo_hp_ctx_def demo_externals_def demo_signer_def
  demo_deployer_def demo_player_def demo_usdc_def demo_treasury_def MAX_LEVEL_def
  MAX_HINTS_PER_LEVEL_def

lemma demo_hp0_constructed:
  "hp_constructor (demo_hp_ctx demo_deployer 1000) demo_usdc demo_treasury demo_signer = Inr demo_hp0"
  by (simp add: hp_constructor_def demo_hp_defs)

lemma demo_malformed: "malformed_signature []" "malformed_signature (replicate 64 0 @ [5])"
  by (simp_all add: malformed_signature_def recovery_id_def nth_append)

section \<open>The hint payment contract: theorems\<close>

text \<open>
  C10, as the code has it. \<open>_recover\<close> returns an address for every hash and every byte
  string, it never reverts; for a malformed signature (not 65 bytes, or a recovery id that
  is neither 27 nor 28 after 27 is added to an id below 27) it returns the zero address. In
  every storage reached from the constructor the price signer is not the zero address, so
  \<open>payForHintWithNegotiatedPrice\<close> with a malformed signature always reverts and leaves
  storage and token ledger as they were; the revert is \<open>InvalidSignature\<close> when the checks
  that the source makes before the signature check pass (level, hint index, not purchased,
  deadline, hash not used).
\<close>

theorem malformed_signature_never_accepted:
  "(\<exists>a. recover X hash sg = Inr a) \<and>
   (malformed_signature sg \<longrightarrow> recover X hash sg = Inr 0) \<and>
   (hp_constructor deploy token tr ps = Inr init \<longrightarrow>
      priceSigner (fst (hp_run X calls (init, ledger))) \<noteq> 0 \<and>
      (malformed_signature sg \<longrightarrow>
         isl (payForHintWithNegotiatedPrice X c level hintIndex price deadline sg
                (hp_run X calls (init, ledger))) \<and>
         hp_step X (PayForHintWithNegotiatedPrice c level hintIndex price deadline sg)
           (hp_run X calls (init, ledger)) = hp_run X calls (init, ledger) \<and>
         (1 \<le> level \<and> level \<le> 7 \<and> hintIndex < 3 \<and>
          \<not> purchases (fst (hp_run X calls (init, ledger))) (msg_sender c) level hintIndex \<and>
          block_timestamp c \<le> deadline \<and>
          \<not> usedSignatures (fst (hp_run X calls (init, ledger)))
               (keccak256 X (price_message (msg_sender c) level hintIndex price deadline (this c)))
          \<longrightarrow> payForHintWithNegotiatedPrice X c level hintIndex price deadline sg
                (hp_run X calls (init, ledger)) = Inl InvalidSignature)))"
proof (intro conjI impI)
  show "\<exists>a. recover X hash sg = Inr a" by (rule recover_total)
next
  assume "malformed_signature sg"
  then show "recover X hash sg = Inr 0" by (rule recover_malformed)
next
  assume "hp_constructor deploy token tr ps = Inr init"
  then have "hp_inv (fst (init, ledger))" by (simp add: hp_constructor_inv)
  then have inv: "hp_inv (fst (hp_run X calls (init, ledger)))" by (rule hp_run_inv)
  then show "priceSigner (fst (hp_run X calls (init, ledger))) \<noteq> 0" by (simp add: hp_inv_def)
  obtain s t where st: "hp_run X calls (init, ledger) = (s, t)" by (cases "hp_run X calls (init, ledger)")
  with inv have s: "hp_inv s" by simp
  assume m: "malformed_signature sg"
  note eq = pay_malformed [OF m s, of X c level hintIndex price deadline t]
  show r: "isl (payForHintWithNegotiatedPrice X c level hintIndex price deadline sg
                (hp_run X calls (init, ledger)))"
    unfolding st eq by simp
  then show "hp_step X (PayForHintWithNegotiatedPrice c level hintIndex price deadline sg)
           (hp_run X calls (init, ledger)) = hp_run X calls (init, ledger)"
    by (simp add: hp_step_isl)
  assume "1 \<le> level \<and> level \<le> 7 \<and> hintIndex < 3 \<and>
          \<not> purchases (fst (hp_run X calls (init, ledger))) (msg_sender c) level hintIndex \<and>
          block_timestamp c \<le> deadline \<and>
          \<not> usedSignatures (fst (hp_run X calls (init, ledger)))
               (keccak256 X (price_message (msg_sender c) level hintIndex price deadline (this c)))"
  then show "payForHintWithNegotiatedPrice X c level hintIndex price deadline sg
                (hp_run X calls (init, ledger)) = Inl InvalidSignature"
    unfolding st eq by (simp add: word_one_le_iff not_less not_le)
qed

text \<open>The theorem at a concrete call: a signature of 65 bytes with recovery id 5 + 27.\<close>

theorem malformed_signature_never_accepted_witness:
  "recover demo_externals 1 (replicate 64 0 @ [5]) = Inr 0 \<and>
   payForHintWithNegotiatedPrice demo_externals (demo_hp_ctx demo_player 2000) 2 1 500 5000
     (replicate 64 0 @ [5])
     (hp_run demo_externals [SetTreasury (demo_hp_ctx demo_deployer 1500) 0x7777] (demo_hp0, ()))
     = Inl InvalidSignature"
proof -
  note A = malformed_signature_never_accepted [where X = demo_externals and hash = 1
      and sg = "replicate 64 0 @ [5]" and deploy = "demo_hp_ctx demo_deployer 1000"
      and token = demo_usdc and tr = demo_treasury and ps = demo_signer and init = demo_hp0
      and calls = "[SetTreasury (demo_hp_ctx demo_deployer 1500) 0x7777]" and ledger = "()"
      and c = "demo_hp_ctx demo_player 2000" and level = 2 and hintIndex = 1 and price = 500
      and deadline = 5000]
  have run: "hp_run demo_externals [SetTreasury (demo_hp_ctx demo_deployer 1500) 0x7777] (demo_hp0, ())
      = (demo_hp0\<lparr>treasury := 0x7777,
                    hp_log := hp_log demo_hp0 @ [TreasuryUpdated demo_treasury 0x7777]\<rparr>, ())"
    by (simp add: hp_run_def hp_step_def on_storage_def setTreasury_def demo_hp_defs)
  have g: "(1::uint256) \<le> 2 \<and> (2::uint256) \<le> 7 \<and> (1::uint256) < 3 \<and>
      \<not> purchases (fst (hp_run demo_externals
            [SetTreasury (demo_hp_ctx demo_deployer 1500) 0x7777] (demo_hp0, ())))
          (msg_sender (demo_hp_ctx demo_player 2000)) 2 1 \<and>
      block_timestamp (demo_hp_ctx demo_player 2000) \<le> 5000 \<and>
      \<not> usedSignatures (fst (hp_run demo_externals
            [SetTreasury (demo_hp_ctx demo_deployer 1500) 0x7777] (demo_hp0, ())))
          (keccak256 demo_externals (price_message (msg_sender (demo_hp_ctx demo_player 2000)) 2 1
             500 5000 (this (demo_hp_ctx demo_player 2000))))"
    unfolding run by (simp add: demo_hp_defs)
  from A [THEN conjunct2, THEN conjunct1, rule_format, OF demo_malformed(2)]
    A [THEN conjunct2, THEN conjunct2, rule_format, OF demo_hp0_constructed, THEN conjunct2,
       rule_format, OF demo_malformed(2), THEN conjunct2, THEN conjunct2, rule_format, OF g]
  show ?thesis by simp
qed

text \<open>
  C10 as stated fails: a malformed signature presented with level 0 ends in
  \<open>InvalidLevel\<close>, not in \<open>InvalidSignature\<close>.
\<close>

theorem malformed_signature_InvalidSignature_counterexample:
  "hp_constructor (demo_hp_ctx demo_deployer 1000) demo_usdc demo_treasury demo_signer = Inr demo_hp0 \<and>
   malformed_signature [] \<and>
   payForHintWithNegotiatedPrice demo_externals (demo_hp_ctx demo_player 2000) 0 1 500 5000 []
     (demo_hp0, ()) = Inl InvalidLevel \<and>
   Inl InvalidLevel \<noteq> (Inl InvalidSignature :: error + hp \<times> unit)"
  by (simp add: demo_hp0_constructed demo_malformed)
     (simp add: payForHintWithNegotiatedPrice_def validatePurchase_def demo_hp_defs)

text \<open>
  C7, as the code has it. With a level that is 0 or above 7, \<open>mintWithSignature\<close>,
  \<open>payForHint\<close>, \<open>payForHintWithNegotiatedPrice\<close> (both outside a re-entrant call),
  \<open>getHintPrice\<close>, \<open>getLevelPrices\<close> and, for the owner, \<open>setHintPrices\<close> revert with
  \<open>InvalidLevel\<close> whatever the other arguments and the storage are, and the transaction
  leaves storage and token ledger unchanged: no completion, no nonce, no purchase, no
  payment.
\<close>

theorem out_of_range_level_rejected:
  "level = 0 \<or> level > 7 \<Longrightarrow>
     mintWithSignature X c level sg nonce deadline s = Inl InvalidLevel \<and>
     nft_step X (MintWithSignature c level sg nonce deadline) s = s \<and>
     getHintPrice h level hintIndex = Inl InvalidLevel \<and>
     getLevelPrices h level = Inl InvalidLevel \<and>
     (\<not> hp_entered h \<longrightarrow>
        payForHint X c level hintIndex (h, t) = Inl InvalidLevel \<and>
        payForHintWithNegotiatedPrice X c level hintIndex price deadline sg (h, t) = Inl InvalidLevel \<and>
        hp_step X (PayForHint c level hintIndex) (h, t) = (h, t) \<and>
        hp_step X (PayForHintWithNegotiatedPrice c level hintIndex price deadline sg) (h, t) = (h, t)) \<and>
     (hp_owner h = msg_sender c \<longrightarrow>
        setHintPrices c level prices h = Inl InvalidLevel \<and>
        hp_step X (SetHintPrices c level prices) (h, t) = (h, t))"
  by (auto simp: mintWithSignature_def nft_step_def getHintPrice_def getLevelPrices_def
        payForHint_def payForHintWithNegotiatedPrice_def validatePurchase_def hp_step_def
        setHintPrices_def on_storage_def MAX_LEVEL_def)

text \<open>The theorem at level 8.\<close>

theorem out_of_range_level_rejected_witness:
  "mintWithSignature demo_externals (demo_ctx demo_player 2000) 8
     (demo_mint_signature demo_player 8 77 5000) 77 5000 demo_nft0 = Inl InvalidLevel \<and>
   payForHint demo_externals (demo_hp_ctx demo_player 2000) 8 1 (demo_hp0, ()) = Inl InvalidLevel \<and>
   setHintPrices (demo_hp_ctx demo_deployer 2000) 8 (1, 2, 3) demo_hp0 = Inl InvalidLevel"
proof -
  have l: "(8::uint256) = 0 \<or> (8::uint256) > 7" by simp
  note A = out_of_range_level_rejected [where level = 8 and X = demo_externals
      and c = "demo_ctx demo_player 2000" and sg = "demo_mint_signature demo_player 8 77 5000"
      and nonce = 77 and deadline = 5000 and s = demo_nft0, OF l]
  note B = out_of_range_level_rejected [where level = 8 and X = demo_externals
      and c = "demo_hp_ctx demo_player 2000" and h = demo_hp0 and hintIndex = 1 and t = "()", OF l]
  note C = out_of_range_level_rejected [where level = 8 and X = demo_externals
      and c = "demo_hp_ctx demo_deployer 2000" and h = demo_hp0 and prices = "(1, 2, 3)", OF l]
  have e: "\<not> hp_entered demo_hp0" by (simp add: demo_hp0_def)
  have o: "hp_owner demo_hp0 = msg_sender (demo_hp_ctx demo_deployer 2000)"
    by (simp add: demo_hp0_def demo_hp_ctx_def)
  from A B e C o show ?thesis by blast
qed

text \<open>
  C7 as stated fails for the operations that do not check the level: \<open>getTier\<close>,
  \<open>hasCompletedLevel\<close>, \<open>hasPurchasedHint\<close> and \<open>getUserPurchases\<close> return a value for
  level 0 or 8, and \<open>setHintPrices\<close> called by another account than the owner reverts
  with the error of \<open>Ownable\<close>.
\<close>

theorem out_of_range_level_counterexample:
  "getTier 0 = ''Bronze'' \<and> getTier 8 = ''Platinum'' \<and>
   hasCompletedLevel demo_nft0 demo_player 0 = False \<and>
   hasPurchasedHint demo_hp0 demo_player 8 0 = False \<and>
   getUserPurchases demo_hp0 demo_player 0 = (False, False, False) \<and>
   setHintPrices (demo_hp_ctx demo_player 2000) 0 (1, 2, 3) demo_hp0 = Inl OwnableUnauthorizedAccount"
  by (simp add: getTier_def hasCompletedLevel_def hasPurchasedHint_def getUserPurchases_def
        setHintPrices_def demo_nft0_def demo_hp_defs)

section \<open>The Verification Judge: lemmas and theorems\<close>

lemma to_upper_cases:
  "to_upper c = c \<or> (c \<in> set lower_letters \<and> to_upper c \<in> set upper_letters)"
proof (cases "map_of (zip lower_letters upper_letters) c")
  case None
  then show ?thesis by (simp add: to_upper_def)
next
  case (Some u)
  then have "(c, u) \<in> set (zip lower_letters upper_letters)" by (rule map_of_SomeD)
  then have "c \<in> set lower_letters" "u \<in> set upper_letters"
    by (auto dest: set_zip_leftD set_zip_rightD)
  with Some show ?thesis by (simp add: to_upper_def)
qed

lemma letters_not_space:
  "c \<in> set lower_letters \<Longrightarrow> \<not> is_space c" "c \<in> set upper_letters \<Longrightarrow> \<not> is_space c"
  by (auto simp: lower_letters_def upper_letters_def is_space_def whitespace_def)

lemma is_space_to_upper: "is_space (to_upper c) = is_space c"
  using to_upper_cases [of c] by (auto dest: letters_not_space)

lemma dropWhile_space_upper:
  "dropWhile is_space (map to_upper s) = map to_upper (dropWhile is_space s)"
  by (induction s) (simp_all add: is_space_to_upper)

lemma trim_map_to_upper: "trim (map to_upper s) = map to_upper (trim s)"
  by (simp add: trim_def dropWhile_space_upper rev_map)

lemma normalize_case_insensitive:
  assumes "map to_upper g = map to_upper g'"
  shows "normalize_str g = normalize_str g'"
proof -
  have "normalize_str g = trim (map to_upper g)" by (simp add: normalize_str_def trim_map_to_upper)
  also have "\<dots> = trim (map to_upper g')" by (simp add: assms)
  also have "\<dots> = normalize_str g'" by (simp add: normalize_str_def trim_map_to_upper)
  finally show ?thesis .
qed

lemma demo_normalize_spark: "normalize_str '' spArk  '' = ''SPARK''"
  by (simp add: normalize_str_def trim_def is_space_def whitespace_def to_upper_def lower_letters_def upper_letters_def)

lemmas judge_eval = normalize_str_def trim_def is_space_def whitespace_def to_upper_def
  lower_letters_def upper_letters_def demo_secret_def

text \<open>
  C5. For every level from 1 to 7, whatever the secret of the level is, a guess whose
  normalized form (trimmed, uppercased) is the sentinel \<open>SPARK\<close> is judged correct.
\<close>

theorem sentinel_always_correct:
  "1 \<le> lvl \<Longrightarrow> lvl \<le> 7 \<Longrightarrow> normalize_str guess = ''SPARK'' \<Longrightarrow>
     judge secret lvl guess user = Inr \<lparr>correct = True, verdict_level = lvl, normalizedValue = ''SPARK''\<rparr>"
  by (simp add: judge_def judge_levels_def sentinel_def)

text \<open>The theorem at level 5, whose secret is another word, with a guess in mixed case.\<close>

theorem sentinel_always_correct_witness:
  "demo_secret 5 \<noteq> ''SPARK'' \<and>
   judge demo_secret 5 '' spArk  '' demo_player
     = Inr \<lparr>correct = True, verdict_level = 5, normalizedValue = ''SPARK''\<rparr>"
proof -
  have "demo_secret 5 \<noteq> ''SPARK''" by (simp add: demo_secret_def)
  moreover have "(1::int) \<le> 5" "(5::int) \<le> 7" by simp_all
  ultimately show ?thesis
    using sentinel_always_correct [OF _ _ demo_normalize_spark, of 5 demo_secret demo_player] by simp
qed

text \<open>
  C6. For every level from 1 to 7 and every guess, the verdict is the exact comparison of
  the trimmed, uppercased guess with the sentinel and with the uppercased secret of the
  level: a guess that is the secret up to the case of its letters (and surrounding
  whitespace) is correct, two guesses that differ only in the case of their letters get the
  same verdict, and a guess that is neither the sentinel nor the secret after
  normalization is incorrect.
\<close>

theorem judge_exact_match_after_normalization:
  "1 \<le> lvl \<Longrightarrow> lvl \<le> 7 \<Longrightarrow>
     judge secret lvl guess user =
       Inr \<lparr>correct = (normalize_str guess = ''SPARK'' \<or> normalize_str guess = map to_upper (secret lvl)),
            verdict_level = lvl, normalizedValue = map to_upper (trim guess)\<rparr> \<and>
     (map to_upper (trim guess) = map to_upper (secret lvl) \<longrightarrow>
        judge secret lvl guess user =
          Inr \<lparr>correct = True, verdict_level = lvl, normalizedValue = normalize_str guess\<rparr>) \<and>
     (map to_upper guess = map to_upper guess' \<longrightarrow>
        judge secret lvl guess user = judge secret lvl guess' user) \<and>
     (normalize_str guess \<noteq> ''SPARK'' \<and> normalize_str guess \<noteq> map to_upper (secret lvl) \<longrightarrow>
        judge secret lvl guess user =
          Inr \<lparr>correct = False, verdict_level = lvl, normalizedValue = normalize_str guess\<rparr>)"
proof (intro conjI impI)
  assume r: "1 \<le> lvl" "lvl \<le> 7"
  then show "judge secret lvl guess user =
       Inr \<lparr>correct = (normalize_str guess = ''SPARK'' \<or> normalize_str guess = map to_upper (secret lvl)),
            verdict_level = lvl, normalizedValue = map to_upper (trim guess)\<rparr>"
    by (simp add: judge_def judge_levels_def sentinel_def Let_def normalize_str_def)
  {
    assume "map to_upper (trim guess) = map to_upper (secret lvl)"
    with r show "judge secret lvl guess user =
          Inr \<lparr>correct = True, verdict_level = lvl, normalizedValue = normalize_str guess\<rparr>"
      by (simp add: judge_def judge_levels_def sentinel_def Let_def normalize_str_def)
  }
  {
    assume "map to_upper guess = map to_upper guess'"
    then have "normalize_str guess = normalize_str guess'" by (rule normalize_case_insensitive)
    then show "judge secret lvl guess user = judge secret lvl guess' user"
      by (simp add: judge_def)
  }
  {
    assume "normalize_str guess \<noteq> ''SPARK'' \<and> normalize_str guess \<noteq> map to_upper (secret lvl)"
    with r show "judge secret lvl guess user =
          Inr \<lparr>correct = False, verdict_level = lvl, normalizedValue = normalize_str guess\<rparr>"
      by (simp add: judge_def judge_levels_def sentinel_def Let_def)
  }
qed

text \<open>The theorem at level 3: three spellings of the secret, and a word that is one letter short.\<close>

theorem judge_exact_match_after_normalization_witness:
  "judge demo_secret 3 ''sunSHINE'' demo_player
     = Inr \<lparr>correct = True, verdict_level = 3, normalizedValue = ''SUNSHINE''\<rparr> \<and>
   judge demo_secret 3 ''SUNSHINE'' demo_player = judge demo_secret 3 ''sunshine'' demo_player \<and>
   judge demo_secret 3 '' sunshin'' demo_player
     = Inr \<lparr>correct = False, verdict_level = 3, normalizedValue = ''SUNSHIN''\<rparr>"
proof -
  have r: "(1::int) \<le> 3" "(3::int) \<le> 7" by simp_all
  note A = judge_exact_match_after_normalization [OF r, where secret = demo_secret
      and guess = "''sunSHINE''" and user = demo_player]
  note B = judge_exact_match_after_normalization [OF r, where secret = demo_secret
      and guess = "''SUNSHINE''" and guess' = "''sunshine''" and user = demo_player]
  note C = judge_exact_match_after_normalization [OF r, where secret = demo_secret
      and guess = "'' sunshin''" and user = demo_player]
  have a: "map to_upper (trim ''sunSHINE'') = map to_upper (demo_secret 3)"
    by (simp add: judge_eval)
  have b: "map to_upper ''SUNSHINE'' = map to_upper ''sunshine''"
    by (simp add: judge_eval)
  have c: "normalize_str '' sunshin'' \<noteq> ''SPARK'' \<and>
      normalize_str '' sunshin'' \<noteq> map to_upper (demo_secret 3)"
    by (simp add: judge_eval)
  have n: "normalize_str ''sunSHINE'' = ''SUNSHINE''" "normalize_str '' sunshin'' = ''SUNSHIN''"
    by (simp_all add: judge_eval)
  from A [THEN conjunct2, THEN conjunct1, rule_format, OF a]
    B [THEN conjunct2, THEN conjunct2, THEN conjunct1, rule_format, OF b]
    C [THEN conjunct2, THEN conjunct2, THEN conjunct2, rule_format, OF c]
  show ?thesis by (simp add: n)
qed

section \<open>The completed levels of the web client: lemmas and theorems\<close>

lemma set_fold_insert:
  "set (fold (\<lambda>x acc. if x \<in> set acc then acc else acc @ [x]) xs acc) = set xs \<union> set acc"
  by (induction xs arbitrary: acc) auto

lemma distinct_fold_insert:
  "distinct acc \<Longrightarrow> distinct (fold (\<lambda>x acc. if x \<in> set acc then acc else acc @ [x]) xs acc)"
  by (induction xs arbitrary: acc) auto

lemma array_from_set_Nil: "array_from_set [] = []"
  by (simp add: array_from_set_def)

lemma set_array_from_set: "set (array_from_set xs) = set xs"
  by (simp add: array_from_set_def set_fold_insert)

lemma distinct_array_from_set: "distinct (array_from_set xs)"
  by (simp add: array_from_set_def distinct_fold_insert)

lemma is_level_as_int: "is_level v \<Longrightarrow> 1 \<le> as_int v \<and> as_int v \<le> 7"
  by (cases v) (auto simp: is_level_def as_int_def totalLevels_def le_floor_iff floor_le_iff)

lemma load_completedLevels_ok: "levels_ok (load_completedLevels JSON_parse Number item)"
proof -
  have "levels_ok (sort (array_from_set (map as_int (filter is_level (map Number vs)))))" for vs
    by (auto simp: levels_ok_def distinct_array_from_set set_array_from_set
          dest: is_level_as_int)
  moreover have "levels_ok []" by (simp add: levels_ok_def)
  ultimately show ?thesis
    by (simp add: load_completedLevels_def Let_def array_from_set_Nil
          split: js_result.splits option.splits json.splits)
qed

lemma add_completed_ok:
  "levels_ok prev \<Longrightarrow> 1 \<le> lvl \<Longrightarrow> lvl \<le> 7 \<Longrightarrow> levels_ok (add_completed lvl prev)"
  by (auto simp: levels_ok_def add_completed_def)

lemma ui_init_inv: "ui_inv (ui_init JSON_parse Number item)"
  by (simp add: ui_inv_def ui_init_def load_completedLevels_ok)

lemma ui_step_inv: "ui_inv s \<Longrightarrow> ui_inv (ui_step e s)"
proof (cases e)
  case (Answer i ok)
  assume inv: "ui_inv s"
  show ?thesis
  proof (cases "i < length (ui_pending s)")
    case True
    with inv have p: "1 \<le> ui_pending s ! i \<and> ui_pending s ! i \<le> 7"
      by (auto simp: ui_inv_def subset_iff)
    from inv have rest: "set (take i (ui_pending s) @ drop (Suc i) (ui_pending s)) \<subseteq> {1..7}"
      by (auto simp: ui_inv_def dest: in_set_takeD in_set_dropD)
    from inv p have "levels_ok (add_completed (ui_pending s ! i) (ui_completedLevels s))"
      by (simp add: ui_inv_def add_completed_ok)
    with inv rest True Answer show ?thesis by (simp add: ui_inv_def)
  next
    case False
    with inv Answer show ?thesis by simp
  qed
qed (auto simp: ui_inv_def totalLevels_def)

lemma ui_run_inv: "ui_inv s \<Longrightarrow> ui_inv (ui_run events s)"
  unfolding ui_run_def by (induction events arbitrary: s) (simp_all add: ui_step_inv)

lemma demo_loaded:
  "sort (array_from_set (map as_int (filter is_level (map demo_Number
      [JNumber (Finite 3), JNumber (Finite 1), JNumber (Finite 3), JNumber (Finite 9),
       JNumber (Finite (5 / 2)), JBool True])))) = [1, 3]"
  by (simp add: is_level_def as_int_def totalLevels_def array_from_set_def)

text \<open>
  C9. After any sequence of events, from any content of the local storage, the completed
  levels of the client are a duplicate-free, ascending list of integers in 1..7. The
  loaded value is the empty list when reading or parsing fails, and otherwise the sorted,
  deduplicated list of the entries that coerce to an integer in range; the updater of the
  success path inserts the level only if it is absent and sorts again.
\<close>

theorem completedLevels_always_sorted_distinct_in_range:
  "distinct (ui_completedLevels (ui_run events (ui_init JSON_parse Number item))) \<and>
   sorted (ui_completedLevels (ui_run events (ui_init JSON_parse Number item))) \<and>
   (\<forall>l \<in> set (ui_completedLevels (ui_run events (ui_init JSON_parse Number item))). 1 \<le> l \<and> l \<le> 7) \<and>
   load_completedLevels JSON_parse Number Throws = [] \<and>
   (JSON_parse raw = None \<longrightarrow> load_completedLevels JSON_parse Number (Returns (Some raw)) = []) \<and>
   (JSON_parse raw = Some (JArray vs) \<longrightarrow> raw \<noteq> [] \<longrightarrow>
      load_completedLevels JSON_parse Number (Returns (Some raw))
        = sort (array_from_set (map as_int (filter is_level (map Number vs))))) \<and>
   (\<forall>prev lvl. set (add_completed lvl prev) = insert lvl (set prev) \<and>
      (lvl \<in> set prev \<longrightarrow> add_completed lvl prev = prev) \<and>
      (sorted prev \<longrightarrow> sorted (add_completed lvl prev)))"
proof -
  have "ui_inv (ui_run events (ui_init JSON_parse Number item))"
    by (intro ui_run_inv ui_init_inv)
  then have "levels_ok (ui_completedLevels (ui_run events (ui_init JSON_parse Number item)))"
    by (simp add: ui_inv_def)
  then show ?thesis
    by (auto simp: levels_ok_def load_completedLevels_def add_completed_def Let_def
          array_from_set_Nil)
qed

text \<open>
  The theorem at a stored array with a duplicate, an entry out of range, a fraction and a
  boolean, followed by a won level 2 whose answer arrives after the player went back to
  level 1.
\<close>

theorem completedLevels_always_sorted_distinct_in_range_witness:
  "load_completedLevels demo_JSON_parse demo_Number (Returns (Some ''[3, 1, 3, 9, 2.5, true]''))
     = [1, 3] \<and>
   distinct (ui_completedLevels (ui_run [NextLevel, Submit, SelectLevel 1, Answer 0 True]
     (ui_init demo_JSON_parse demo_Number (Returns (Some ''[3, 1, 3, 9, 2.5, true]''))))) \<and>
   ui_completedLevels (ui_run [NextLevel, Submit, SelectLevel 1, Answer 0 True]
     (ui_init demo_JSON_parse demo_Number (Returns (Some ''[3, 1, 3, 9, 2.5, true]''))))
     = [1, 2, 3]"
proof -
  note A = completedLevels_always_sorted_distinct_in_range [where JSON_parse = demo_JSON_parse
      and Number = demo_Number and item = "Returns (Some ''[3, 1, 3, 9, 2.5, true]'')"
      and events = "[NextLevel, Submit, SelectLevel 1, Answer 0 True]"
      and raw = "''[3, 1, 3, 9, 2.5, true]''"
      and vs = "[JNumber (Finite 3), JNumber (Finite 1), JNumber (Finite 3), JNumber (Finite 9),
                 JNumber (Finite (5 / 2)), JBool True]"]
  have p: "demo_JSON_parse ''[3, 1, 3, 9, 2.5, true]'' =
      Some (JArray [JNumber (Finite 3), JNumber (Finite 1), JNumber (Finite 3), JNumber (Finite 9),
                    JNumber (Finite (5 / 2)), JBool True])"
    by (simp add: demo_JSON_parse_def)
  have ne: "''[3, 1, 3, 9, 2.5, true]'' \<noteq> []" by simp
  from A [THEN conjunct2, THEN conjunct2, THEN conjunct2, THEN conjunct2, THEN conjunct2,
      THEN conjunct1, rule_format, OF p ne]
  have l: "load_completedLevels demo_JSON_parse demo_Number
      (Returns (Some ''[3, 1, 3, 9, 2.5, true]'')) = [1, 3]"
    by (simp only: demo_loaded)
  have r: "ui_completedLevels (ui_run [NextLevel, Submit, SelectLevel 1, Answer 0 True]
     (ui_init demo_JSON_parse demo_Number (Returns (Some ''[3, 1, 3, 9, 2.5, true]''))))
     = [1, 2, 3]"
    by (simp add: ui_run_def ui_init_def l totalLevels_def max_unlocked_def add_completed_def)
  from l A [THEN conjunct1] r show ?thesis by simp
qed

end
